theory Spec2Isabelle
  imports Complex_Main "HOL-Library.Sublist"
begin

section \<open>Numbers and strings of the formatter (src/main.ts)\<close>

text \<open>
  A JavaScript number is an IEEE 754 binary64 value: NaN, the two infinities, the
  negative zero, or a finite double \<open>Num v\<close> of the exact value \<open>v\<close>, where
  \<open>Num 0\<close> is the positive zero. Every arithmetic operation computes the exact result
  and rounds it to the nearest double, ties to the even significand, as the language
  does. A JavaScript string is a \<^typ>\<open>string\<close>, the list of its code units. Turning
  a number into text inside a template literal (\<^verbatim>\<open>`${n}`\<close>) is the runtime's, not
  the repository's; every function that does it takes the conversion as its first
  argument \<open>str\<close>.
\<close>

datatype number = NaN | PosInf | NegInf | NegZero | Num real

text \<open>The power of two with an integer exponent.\<close>

definition pow2 :: "int \<Rightarrow> real" where
  "pow2 k = (if 0 \<le> k then 2 ^ nat k else 1 / 2 ^ nat (- k))"

text \<open>For \<open>1 \<le> a\<close>, the number of times \<open>a\<close> is halved before it is below 2: the
  exponent of \<open>a\<close>.\<close>

function halvings :: "real \<Rightarrow> nat" where
  "halvings a = (if a < 2 then 0 else Suc (halvings (a / 2)))"
  by pat_completeness auto
termination
proof (relation "measure (\<lambda>a. nat \<lfloor>a\<rfloor>)")
  show "wf (measure (\<lambda>a. nat \<lfloor>a\<rfloor>))" by simp
next
  fix a :: real
  assume "\<not> a < 2"
  then have large: "2 \<le> a" by simp
  then have "a / 2 + 1 \<le> a" by simp
  then have "\<lfloor>a / 2\<rfloor> + 1 \<le> \<lfloor>a\<rfloor>" by linarith
  moreover have "0 \<le> \<lfloor>a / 2\<rfloor>" using large by simp
  ultimately have "nat \<lfloor>a / 2\<rfloor> < nat \<lfloor>a\<rfloor>" by linarith
  then show "(a / 2, a) \<in> measure (\<lambda>a. nat \<lfloor>a\<rfloor>)" by simp
qed

declare halvings.simps [simp del]

text \<open>For \<open>a < 1\<close>, the number of times \<open>a\<close> is doubled before it reaches 1, at most
  \<open>k\<close> times: below the smallest normal double the exponent stays at -1022.\<close>

fun doublings :: "nat \<Rightarrow> real \<Rightarrow> nat" where
  "doublings k a = (if k = 0 \<or> 1 \<le> a then 0 else Suc (doublings (k - 1) (2 * a)))"

declare doublings.simps [simp del]

text \<open>The binary exponent of a positive value as binary64 sees it.\<close>

definition exponent :: "real \<Rightarrow> int" where
  "exponent a = (if 1 \<le> a then int (halvings a) else - int (doublings 1022 a))"

definition roundTiesToEven :: "real \<Rightarrow> int" where
  "roundTiesToEven y =
     (let f = \<lfloor>y\<rfloor>; r = y - of_int f in
      if r < 1 / 2 then f
      else if 1 / 2 < r then f + 1
      else if even f then f else f + 1)"

text \<open>
  The double nearest to an exact value: 53 bits of significand, so the unit in the last
  place is \<open>2 ^ (exponent - 52)\<close>; a result of \<open>2 ^ 1024\<close> or more is an infinity,
  and a result that rounds to nothing is a zero with the sign of the value.
\<close>

definition round64 :: "real \<Rightarrow> number" where
  "round64 x =
     (if x = 0 then Num 0
      else
        let a = \<bar>x\<bar>;
            ulp = pow2 (exponent a - 52);
            v = of_int (roundTiesToEven (a / ulp)) * ulp
        in if pow2 1024 \<le> v then (if x < 0 then NegInf else PosInf)
           else if v = 0 then (if x < 0 then NegZero else Num 0)
           else Num (if x < 0 then - v else v))"

text \<open>A decimal literal of the program text denotes the double nearest to it.\<close>

definition lit :: "real \<Rightarrow> number" where
  "lit d = round64 d"

fun signbit :: "number \<Rightarrow> bool" where
  "signbit NaN = False"
| "signbit PosInf = False"
| "signbit NegInf = True"
| "signbit NegZero = True"
| "signbit (Num v) = (v < 0)"

fun is_inf :: "number \<Rightarrow> bool" where
  "is_inf PosInf = True"
| "is_inf NegInf = True"
| "is_inf _ = False"

fun value_of :: "number \<Rightarrow> real" where
  "value_of (Num v) = v"
| "value_of _ = 0"

definition is_zero :: "number \<Rightarrow> bool" where
  "is_zero x = (x = NegZero \<or> x = Num 0)"

definition signed_zero :: "bool \<Rightarrow> number" where
  "signed_zero negative = (if negative then NegZero else Num 0)"

definition infinity :: "bool \<Rightarrow> number" where
  "infinity negative = (if negative then NegInf else PosInf)"

text \<open>The operator \<^verbatim>\<open>*\<close>.\<close>

definition fmul :: "number \<Rightarrow> number \<Rightarrow> number" where
  "fmul x y =
     (if x = NaN \<or> y = NaN then NaN
      else if is_inf x \<or> is_inf y then
        (if is_zero x \<or> is_zero y then NaN else infinity (signbit x \<noteq> signbit y))
      else if value_of x * value_of y = 0 then signed_zero (signbit x \<noteq> signbit y)
      else round64 (value_of x * value_of y))"

text \<open>The operator \<^verbatim>\<open>/\<close>.\<close>

definition fdiv :: "number \<Rightarrow> number \<Rightarrow> number" where
  "fdiv x y =
     (if x = NaN \<or> y = NaN then NaN
      else if is_inf x then (if is_inf y then NaN else infinity (signbit x \<noteq> signbit y))
      else if is_inf y then signed_zero (signbit x \<noteq> signbit y)
      else if is_zero y then (if is_zero x then NaN else infinity (signbit x \<noteq> signbit y))
      else if is_zero x then signed_zero (signbit x \<noteq> signbit y)
      else round64 (value_of x / value_of y))"

fun fneg :: "number \<Rightarrow> number" where
  "fneg NaN = NaN"
| "fneg PosInf = NegInf"
| "fneg NegInf = PosInf"
| "fneg NegZero = Num 0"
| "fneg (Num v) = (if v = 0 then NegZero else Num (- v))"

definition fadd :: "number \<Rightarrow> number \<Rightarrow> number" where
  "fadd x y =
     (if x = NaN \<or> y = NaN then NaN
      else if is_inf x then (if is_inf y \<and> x \<noteq> y then NaN else x)
      else if is_inf y then y
      else if value_of x + value_of y = 0 then signed_zero (signbit x \<and> signbit y)
      else round64 (value_of x + value_of y))"

text \<open>The binary operator \<^verbatim>\<open>-\<close>.\<close>

definition fsub :: "number \<Rightarrow> number \<Rightarrow> number" where
  "fsub x y = fadd x (fneg y)"

fun Math_abs :: "number \<Rightarrow> number" where
  "Math_abs NaN = NaN"
| "Math_abs PosInf = PosInf"
| "Math_abs NegInf = PosInf"
| "Math_abs NegZero = Num 0"
| "Math_abs (Num v) = Num \<bar>v\<bar>"

fun Math_sign :: "number \<Rightarrow> number" where
  "Math_sign NaN = NaN"
| "Math_sign PosInf = Num 1"
| "Math_sign NegInf = Num (- 1)"
| "Math_sign NegZero = NegZero"
| "Math_sign (Num v) = (if 0 < v then Num 1 else if v < 0 then Num (- 1) else Num 0)"

text \<open>\<^verbatim>\<open>Math.trunc\<close> drops the fractional digits, towards zero; a negative value
  above -1 gives the negative zero.\<close>

fun Math_trunc :: "number \<Rightarrow> number" where
  "Math_trunc (Num v) =
     (if v < 0 then (if \<lceil>v\<rceil> = 0 then NegZero else Num (of_int \<lceil>v\<rceil>))
      else Num (of_int \<lfloor>v\<rfloor>))"
| "Math_trunc x = x"

text \<open>\<^verbatim>\<open>Math.floor\<close>, which the program does not call: the truncation law is
  stated with it.\<close>

fun Math_floor :: "number \<Rightarrow> number" where
  "Math_floor (Num v) = Num (of_int \<lfloor>v\<rfloor>)"
| "Math_floor x = x"

text \<open>The remainder operator \<^verbatim>\<open>%\<close>: exact, with the sign of the dividend.\<close>

definition js_rem :: "number \<Rightarrow> number \<Rightarrow> number" where
  "js_rem x y =
     (if x = NaN \<or> y = NaN \<or> is_inf x \<or> is_zero y then NaN
      else if is_inf y \<or> is_zero x then x
      else
        let a = value_of x; b = value_of y;
            q = (if a / b < 0 then \<lceil>a / b\<rceil> else \<lfloor>a / b\<rfloor>);
            r = a - b * of_int q
        in if r = 0 then signed_zero (signbit x) else Num r)"

text \<open>The comparison \<^verbatim>\<open>===\<close> of two numbers: NaN equals nothing, the two zeros
  are equal.\<close>

definition strict_eq :: "number \<Rightarrow> number \<Rightarrow> bool" where
  "strict_eq x y = (x \<noteq> NaN \<and> y \<noteq> NaN \<and> (x = y \<or> is_zero x \<and> is_zero y))"

text \<open>The comparison \<^verbatim>\<open><\<close> of two numbers.\<close>

definition js_less :: "number \<Rightarrow> number \<Rightarrow> bool" where
  "js_less x y =
     (x \<noteq> NaN \<and> y \<noteq> NaN \<and>
      (if is_inf x \<or> is_inf y then x \<noteq> y \<and> (x = NegInf \<or> y = PosInf)
       else value_of x < value_of y))"

text \<open>
  \<^verbatim>\<open>
  function truncPercentage(n: number): number {
    return Math.sign(n) * (Math.trunc(Math.abs(n) * 10) / 10)
  }
  \<close>
\<close>

definition truncPercentage :: "number \<Rightarrow> number" where
  "truncPercentage n =
     fmul (Math_sign n) (fdiv (Math_trunc (fmul (Math_abs n) (Num 10))) (Num 10))"

text \<open>The constant \<^verbatim>\<open>top\<close> of \<^verbatim>\<open>badgeUrl\<close>.\<close>

definition top_url :: string where
  "top_url = ''https://raw.githubusercontent.com/kzkn/simplecov-resultset-diff-action/main/assets''"

text \<open>
  \<^verbatim>\<open>
  function badgeUrl(from: number, to: number): string {
    const diff = Math.abs(truncPercentage(to - from))
    if (diff === 0) {
      return `${top}/0.svg`
    } else {
      const dir = Math.sign(to - from) < 0 ? 'down' : 'up'
      const n = Math.trunc(diff)
      const m = (diff * 10) % 10
      return `${top}/${dir}/${n}/${n}.${m}.svg`
    }
  }
  \<close>
\<close>

definition badgeUrl :: "(number \<Rightarrow> string) \<Rightarrow> number \<Rightarrow> number \<Rightarrow> string" where
  "badgeUrl str from_v to_v =
     (let diff = Math_abs (truncPercentage (fsub to_v from_v)) in
      if strict_eq diff (Num 0) then top_url @ ''/0.svg''
      else
        let dir = (if js_less (Math_sign (fsub to_v from_v)) (Num 0) then ''down'' else ''up'');
            n = Math_trunc diff;
            m = js_rem (fmul diff (Num 10)) (Num 10)
        in top_url @ ''/'' @ dir @ ''/'' @ str n @ ''/'' @ str n @ ''.'' @ str m @ ''.svg'')"

text \<open>A cell of a diff record: \<^verbatim>\<open>{from: number | null, to: number | null}\<close>.\<close>

record DiffItem =
  from_pct :: "number option"
  to_pct :: "number option"

text \<open>
  \<^verbatim>\<open>
  function formatDiffItem({from, to}): string {
    let p = ''
    let badge = ''
    if (to !== null) {
      p = ` ${truncPercentage(to)}%`
    }
    if (from !== null && to !== null) {
      badge = ` ![${truncPercentage(to - from)}%](${badgeUrl(from, to)})`
    }
    const created = from === null && to !== null ? 'NEW' : ''
    const deleted = from !== null && to === null ? 'DELETE' : ''
    return `${created}${deleted}${p}${badge}`
  }
  \<close>
\<close>

definition formatDiffItem :: "(number \<Rightarrow> string) \<Rightarrow> DiffItem \<Rightarrow> string" where
  "formatDiffItem str item =
     (let p = (case to_pct item of
                 None \<Rightarrow> ''''
               | Some t \<Rightarrow> '' '' @ str (truncPercentage t) @ ''%'');
          badge = (case (from_pct item, to_pct item) of
                     (Some f, Some t) \<Rightarrow>
                       '' !['' @ str (truncPercentage (fsub t f)) @ ''%]('' @ badgeUrl str f t @ '')''
                   | _ \<Rightarrow> '''');
          created = (if from_pct item = None \<and> to_pct item \<noteq> None then ''NEW'' else '''');
          deleted = (if from_pct item \<noteq> None \<and> to_pct item = None then ''DELETE'' else '''')
      in created @ deleted @ p @ badge)"

text \<open>
  The workspace root \<^verbatim>\<open>WORKSPACE\<close> is read from the process environment when
  the module is loaded; it is the argument \<open>workspace_root\<close> here.
  \<^verbatim>\<open>
  function trimWorkspacePath(filename: string): string {
    const workspace = `${WORKSPACE}/`
    if (filename.startsWith(workspace)) {
      return filename.slice(workspace.length)
    } else {
      return filename
    }
  }
  \<close>
\<close>

definition trimWorkspacePath :: "string \<Rightarrow> string \<Rightarrow> string" where
  "trimWorkspacePath workspace_root filename =
     (let workspace = workspace_root @ ''/'' in
      if prefix workspace filename then drop (length workspace) filename
      else filename)"

text \<open>
  Modelled from the spec: the type \<^verbatim>\<open>FileCoverageDiff\<close> of the missing
  \<^verbatim>\<open>simplecov.ts\<close> (section 3), with the fields that \<^verbatim>\<open>formatDiff\<close>
  reads.
\<close>

record FileCoverageDiff =
  filename :: string
  lines :: DiffItem
  branches :: DiffItem

text \<open>
  \<^verbatim>\<open>
  function formatDiff(diff: FileCoverageDiff): [string, string, string] {
    return [
      trimWorkspacePath(diff.filename),
      formatDiffItem(diff.lines),
      formatDiffItem(diff.branches)
    ]
  }
  \<close>
\<close>

definition formatDiff ::
  "(number \<Rightarrow> string) \<Rightarrow> string \<Rightarrow> FileCoverageDiff \<Rightarrow> string list" where
  "formatDiff str workspace_root diff =
     [trimWorkspacePath workspace_root (filename diff),
      formatDiffItem str (lines diff),
      formatDiffItem str (branches diff)]"

section \<open>The coverage model and the diff engine (simplecov.ts)\<close>

text \<open>
  \<^verbatim>\<open>main.ts\<close> imports \<^verbatim>\<open>ResultSet\<close>, \<^verbatim>\<open>Coverage\<close>,
  \<^verbatim>\<open>getCoverageDiff\<close> and \<^verbatim>\<open>FileCoverageDiff\<close> from
  \<^verbatim>\<open>./simplecov.js\<close>. The source of that module, \<^verbatim>\<open>simplecov.ts\<close>, is
  missing; what \<^verbatim>\<open>main.ts\<close> calls from it is modelled from the
  specification (sections 3 and 4), one definition for each thing the specification
  describes, and every such definition says so.
\<close>

text \<open>An exception: a JavaScript \<^verbatim>\<open>Error\<close> with its message, or the
  specification's ParseError with a description of what was malformed.\<close>

datatype error = Error string | ParseError string

fun message :: "error \<Rightarrow> string" where
  "message (Error m) = m"
| "message (ParseError m) = m"

text \<open>
  Modelled from the spec: the types of the missing \<^verbatim>\<open>simplecov.ts\<close> (section 3).
  A line entry is a hit count or the null marker, \<open>None\<close>. The branches map a branch
  identifier to a hit count; like every JSON object here, the mapping is an association
  list in the order of its keys.
\<close>

type_synonym LineCoverage = "nat option list"
type_synonym BranchCoverage = "(string \<times> nat) list"

text \<open>
  Modelled from the spec: the raw per-file record of a ResultSet, missing with
  \<^verbatim>\<open>simplecov.ts\<close> (section 3). \<open>raw_lines\<close> is \<open>None\<close> when the field is
  not an array, \<open>raw_branches\<close> is \<open>None\<close> when the field is absent.
\<close>

record RawFileCoverage =
  raw_lines :: "LineCoverage option"
  raw_branches :: "BranchCoverage option"

text \<open>
  Modelled from the spec: a top-level suite of the missing type \<^verbatim>\<open>ResultSet\<close>
  (section 3); \<open>coverage\<close> is \<open>None\<close> when the suite has no such key.
\<close>

record Suite =
  coverage :: "(string \<times> RawFileCoverage) list option"

type_synonym ResultSet = "(string \<times> Suite) list"

text \<open>
  Modelled from the spec: the merged per-file record of the document that the missing
  class \<^verbatim>\<open>Coverage\<close> holds (sections 3 and 4.1), and the document, keyed by
  file path in the order of first insertion.
\<close>

record FileCoverage =
  line_hits :: LineCoverage
  branch_hits :: BranchCoverage

type_synonym Coverage = "(string \<times> FileCoverage) list"

text \<open>
  Modelled from the spec: the shape check of one file record in the missing parser
  (section 4.1: ParseError on lines that are not an array; section 3: absent branches
  mean that no branch is tracked).
\<close>

definition validate :: "RawFileCoverage \<Rightarrow> error + FileCoverage" where
  "validate raw =
     (case raw_lines raw of
        None \<Rightarrow> Inl (ParseError ''lines is not an array'')
      | Some ls \<Rightarrow>
          Inr \<lparr>line_hits = ls,
               branch_hits = (case raw_branches raw of None \<Rightarrow> [] | Some bs \<Rightarrow> bs)\<rparr>)"

text \<open>
  Modelled from the spec: the sum of the hit counts at one position in the missing merge
  (section 4.1). The specification sums hit counts; the null marker carries none, so a
  position that is null in both suites stays null.
\<close>

fun addHits :: "nat option \<Rightarrow> nat option \<Rightarrow> nat option" where
  "addHits None None = None"
| "addHits (Some a) None = Some a"
| "addHits None (Some b) = Some b"
| "addHits (Some a) (Some b) = Some (a + b)"

text \<open>
  Modelled from the spec: the positional merge of two line arrays in the missing merge
  (section 4.1). Arrays of different lengths fail (section 3: "failing clearly if
  violated").
\<close>

definition mergeLines :: "LineCoverage \<Rightarrow> LineCoverage \<Rightarrow> error + LineCoverage" where
  "mergeLines xs ys =
     (if length xs = length ys then Inr (map (\<lambda>(x, y). addHits x y) (zip xs ys))
      else Inl (ParseError ''line arrays differ in length''))"

text \<open>
  Modelled from the spec: adding a key to a set of keys kept in first-seen order, for the
  missing key union of the branches (section 4.1) and the missing union of the paths
  (section 4.3, steps 1 and 2).
\<close>

definition addPath :: "string list \<Rightarrow> string \<Rightarrow> string list" where
  "addPath seen p = (if p \<in> set seen then seen else seen @ [p])"

text \<open>Modelled from the spec: the hit count of a branch key in the missing merge, a
  key that the mapping lacks counting 0 (section 4.1).\<close>

definition hitsOf :: "BranchCoverage \<Rightarrow> string \<Rightarrow> nat" where
  "hitsOf bs k = (case map_of bs k of None \<Rightarrow> 0 | Some n \<Rightarrow> n)"

text \<open>Modelled from the spec: the missing merge of the branches, by key union
  (section 4.1).\<close>

definition mergeBranches :: "BranchCoverage \<Rightarrow> BranchCoverage \<Rightarrow> BranchCoverage" where
  "mergeBranches xs ys =
     map (\<lambda>k. (k, hitsOf xs k + hitsOf ys k))
       (foldl addPath (foldl addPath [] (map fst xs)) (map fst ys))"

text \<open>Modelled from the spec: the missing merge of the record of a file that an
  earlier suite reported with the record of a later suite (section 4.1).\<close>

definition mergeFile :: "FileCoverage \<Rightarrow> FileCoverage \<Rightarrow> error + FileCoverage" where
  "mergeFile old new =
     (case mergeLines (line_hits old) (line_hits new) of
        Inl e \<Rightarrow> Inl e
      | Inr ls \<Rightarrow>
          Inr \<lparr>line_hits = ls, branch_hits = mergeBranches (branch_hits old) (branch_hits new)\<rparr>)"

text \<open>
  Modelled from the spec: storing one file of one suite in the missing
  \<^verbatim>\<open>build\<close> (section 4.1): as it is when the path is not yet seen, merged
  with the stored record otherwise.
\<close>

fun addFile :: "Coverage \<Rightarrow> string \<Rightarrow> FileCoverage \<Rightarrow> error + Coverage" where
  "addFile [] p r = Inr [(p, r)]"
| "addFile ((q, old) # rest) p r =
     (if q = p then
        (case mergeFile old r of
           Inl e \<Rightarrow> Inl e
         | Inr m \<Rightarrow> Inr ((q, m) # rest))
      else
        (case addFile rest p r of
           Inl e \<Rightarrow> Inl e
         | Inr rest' \<Rightarrow> Inr ((q, old) # rest')))"

text \<open>Modelled from the spec: the inner loop of the missing \<^verbatim>\<open>build\<close>, over
  the files of one suite (section 4.1).\<close>

fun addSuite :: "Coverage \<Rightarrow> (string \<times> RawFileCoverage) list \<Rightarrow> error + Coverage" where
  "addSuite doc [] = Inr doc"
| "addSuite doc ((p, raw) # rest) =
     (case validate raw of
        Inl e \<Rightarrow> Inl e
      | Inr r \<Rightarrow>
          (case addFile doc p r of
             Inl e \<Rightarrow> Inl e
           | Inr doc' \<Rightarrow> addSuite doc' rest))"

text \<open>Modelled from the spec: the outer loop of the missing \<^verbatim>\<open>build\<close>, over
  the top-level suites (section 4.1: ParseError on a suite without the coverage key).\<close>

fun addSuites :: "Coverage \<Rightarrow> ResultSet \<Rightarrow> error + Coverage" where
  "addSuites doc [] = Inr doc"
| "addSuites doc ((name, suite) # rest) =
     (case coverage suite of
        None \<Rightarrow> Inl (ParseError ''missing coverage key'')
      | Some files \<Rightarrow>
          (case addSuite doc files of
             Inl e \<Rightarrow> Inl e
           | Inr doc' \<Rightarrow> addSuites doc' rest))"

text \<open>
  Modelled from the spec: \<^verbatim>\<open>build(raw)\<close> of section 4.1, which is the missing
  constructor \<^verbatim>\<open>new Coverage(resultset)\<close>. A failure returns no partial
  document.
\<close>

definition build :: "ResultSet \<Rightarrow> error + Coverage" where
  "build raw = addSuites [] raw"

text \<open>
  Modelled from the spec: the line percentage of the missing class
  \<^verbatim>\<open>Coverage\<close> (section 4.2): \<^verbatim>\<open>covered / instrumentable * 100\<close>
  in floating point, the two counts being exact numbers.
\<close>

definition linesPercentage :: "LineCoverage \<Rightarrow> number option" where
  "linesPercentage ls =
     (let instrumentable = length (filter (\<lambda>x. x \<noteq> None) ls);
          covered = length (filter (\<lambda>x. case x of None \<Rightarrow> False | Some n \<Rightarrow> 0 < n) ls)
      in if instrumentable = 0 then None
         else Some (fmul (fdiv (Num (real covered)) (Num (real instrumentable))) (Num 100)))"

text \<open>Modelled from the spec: the branch percentage of the missing class
  \<^verbatim>\<open>Coverage\<close>, the same over the values of the branches (section 4.2).\<close>

definition branchesPercentage :: "BranchCoverage \<Rightarrow> number option" where
  "branchesPercentage bs =
     (let total = length bs;
          covered = length (filter (\<lambda>(k, n). 0 < n) bs)
      in if total = 0 then None
         else Some (fmul (fdiv (Num (real covered)) (Num (real total))) (Num 100)))"

text \<open>Modelled from the spec: \<^verbatim>\<open>percentageFor(filePath)\<close> of the missing class
  \<^verbatim>\<open>Coverage\<close> (section 4.2), the line percentage first; a path that the
  document does not have gives null for both.\<close>

definition percentageFor :: "Coverage \<Rightarrow> string \<Rightarrow> number option \<times> number option" where
  "percentageFor cov p =
     (case map_of cov p of
        None \<Rightarrow> (None, None)
      | Some r \<Rightarrow> (linesPercentage (line_hits r), branchesPercentage (branch_hits r)))"

text \<open>Modelled from the spec: the file paths known to a document of the missing class
  \<^verbatim>\<open>Coverage\<close>, in its order (section 4.3, step 1).\<close>

definition knownPaths :: "Coverage \<Rightarrow> string list" where
  "knownPaths cov = map fst cov"

text \<open>Modelled from the spec: whether a document of the missing class
  \<^verbatim>\<open>Coverage\<close> has a record for a path (section 4.3, step 4).\<close>

definition hasRecord :: "Coverage \<Rightarrow> string \<Rightarrow> bool" where
  "hasRecord cov p = (map_of cov p \<noteq> None)"

text \<open>Modelled from the spec: steps 1 and 2 of the missing \<^verbatim>\<open>getCoverageDiff\<close>
  (section 4.3): the paths of head in their order, then the paths that only base has.\<close>

definition unionPaths :: "Coverage \<Rightarrow> Coverage \<Rightarrow> string list" where
  "unionPaths base head = foldl addPath (foldl addPath [] (knownPaths head)) (knownPaths base)"

text \<open>Modelled from the spec: steps 3 and 5 of the missing \<^verbatim>\<open>getCoverageDiff\<close>
  (section 4.3), the record of one path.\<close>

definition diffRecord :: "Coverage \<Rightarrow> Coverage \<Rightarrow> string \<Rightarrow> FileCoverageDiff" where
  "diffRecord base head p =
     \<lparr>filename = p,
      lines = \<lparr>from_pct = fst (percentageFor base p), to_pct = fst (percentageFor head p)\<rparr>,
      branches = \<lparr>from_pct = snd (percentageFor base p), to_pct = snd (percentageFor head p)\<rparr>\<rparr>"

text \<open>Modelled from the spec: the loop of the missing \<^verbatim>\<open>getCoverageDiff\<close>
  (section 4.3), with the consistency check of step 4 that skips a path neither
  document has a record for.\<close>

fun diffPaths :: "Coverage \<Rightarrow> Coverage \<Rightarrow> string list \<Rightarrow> FileCoverageDiff list" where
  "diffPaths base head [] = []"
| "diffPaths base head (p # ps) =
     (if \<not> hasRecord head p \<and> \<not> hasRecord base p then diffPaths base head ps
      else diffRecord base head p # diffPaths base head ps)"

text \<open>Modelled from the spec: \<^verbatim>\<open>getCoverageDiff(base, head)\<close> of the missing
  \<^verbatim>\<open>simplecov.ts\<close> (section 4.3).\<close>

definition getCoverageDiff :: "Coverage \<Rightarrow> Coverage \<Rightarrow> FileCoverageDiff list" where
  "getCoverageDiff base head = diffPaths base head (unionPaths base head)"

section \<open>The run of the action (src/main.ts)\<close>

text \<open>
  What \<^verbatim>\<open>run\<close> does to the outside is a list of events, in the order of the
  calls: \<^verbatim>\<open>core.info\<close>, \<^verbatim>\<open>core.warning\<close>, \<^verbatim>\<open>core.setFailed\<close> and the
  request \<^verbatim>\<open>octokit.rest.issues.createComment\<close> with its owner, repository,
  issue number and body.
\<close>

datatype event =
  Info string
| Warning string
| SetFailed string
| CreateComment string string int string

text \<open>
  The fields of \<^verbatim>\<open>github.context\<close> that \<^verbatim>\<open>run\<close> reads. \<open>payload_json\<close> is
  \<^verbatim>\<open>JSON.stringify(github.context.payload)\<close>. Reading \<^verbatim>\<open>context.issue\<close> is a
  getter of the library and may throw; its number is \<open>None\<close> when the payload has
  none.
\<close>

record Context =
  eventName :: string
  payload_action :: "string option"
  payload_after :: string
  payload_json :: string
  context_sha :: string
  issue_number :: "error + int option"
  repo_owner :: string
  repo_repo :: string

text \<open>
  Everything else \<^verbatim>\<open>run\<close> calls that is not the repository's: the inputs of the
  action, the process, the file system with the JSON parser, the libraries. A call
  that can throw returns its error as a value.
\<close>

record World =
  getInput :: "string \<Rightarrow> string"
  process_cwd :: string
  WORKSPACE :: string
  path_resolve :: "string \<Rightarrow> string \<Rightarrow> string"
  existsSync :: "string \<Rightarrow> bool"
  readJSON :: "string \<Rightarrow> error + ResultSet"
  github_context :: Context
  getOctokit :: "string \<Rightarrow> error option"
  createComment :: "string \<Rightarrow> string \<Rightarrow> int \<Rightarrow> string \<Rightarrow> error option"
  markdownTable :: "string list list \<Rightarrow> string"
  numberToString :: "number \<Rightarrow> string"

text \<open>
  \<^verbatim>\<open>
  function doesPathExists(filepath: string): void {
    if (!fs.existsSync(filepath)) {
      throw new Error(`${filepath} does not exist!`)
    }
  }
  \<close>
\<close>

definition doesPathExists :: "World \<Rightarrow> string \<Rightarrow> error + unit" where
  "doesPathExists w filepath =
     (if \<not> existsSync w filepath then Inl (Error (filepath @ '' does not exist!''))
      else Inr ())"

text \<open>
  \<^verbatim>\<open>
  function parseResultset(resultsetPath: string): ResultSet {
    const content = fs.readFileSync(path.resolve(WORKSPACE, resultsetPath))
    return JSON.parse(content.toString()) as ResultSet
  }
  \<close>
\<close>

definition parseResultset :: "World \<Rightarrow> string \<Rightarrow> error + ResultSet" where
  "parseResultset w resultsetPath = readJSON w (path_resolve w (WORKSPACE w) resultsetPath)"

text \<open>Lines 109 to 117 of \<^verbatim>\<open>run\<close>: the content of the report.\<close>

definition reportContent ::
  "(string list list \<Rightarrow> string) \<Rightarrow> (number \<Rightarrow> string) \<Rightarrow> string \<Rightarrow> FileCoverageDiff list \<Rightarrow> string" where
  "reportContent table str workspace_root diff =
     (if length diff = 0 then ''No differences''
      else table ([''Filename'', ''Lines'', ''Branches''] # map (formatDiff str workspace_root) diff))"

text \<open>Lines 119 to 136: the commit the report is attributed to, with what is logged.\<close>

definition resolveCommitSha :: "Context \<Rightarrow> event list \<times> string" where
  "resolveCommitSha c =
     (if eventName c = ''push'' then
        ([Info ''Pull sha from pushEvent''], payload_after c)
      else if eventName c = ''pull_request'' \<and> payload_action c = Some ''synchronize'' then
        ([Info ''Pull sha from PullRequestSynchronizeEvent''], payload_after c)
      else
        ([Info ''Unsupported event'',
          Info (''eventName: '' @ eventName c),
          Info (payload_json c)],
         context_sha c))"

text \<open>Lines 138 to 142: the template of the message, with its line breaks.\<close>

definition reportMessage :: "string \<Rightarrow> string \<Rightarrow> string" where
  "reportMessage content commitSha =
     ''## Coverage difference'' @ [CHR 0x0A] @ content @ [CHR 0x0A, CHR 0x0A]
       @ ''_Commit '' @ commitSha @ ''_'' @ [CHR 0x0A]"

text \<open>\<^verbatim>\<open>!pullRequestId\<close>: the number is undefined or zero.\<close>

fun falsy :: "int option \<Rightarrow> bool" where
  "falsy None = True"
| "falsy (Some n) = (n = 0)"

text \<open>
  The body of the \<^verbatim>\<open>try\<close> block of \<^verbatim>\<open>run\<close>: the events so far, and the
  exception that ended the block, if one did. \<^verbatim>\<open>new Coverage\<close> is \<open>build\<close>.
\<close>

definition run_try :: "World \<Rightarrow> event list \<times> (error + unit)" where
  "run_try w =
     (let base_path = path_resolve w (process_cwd w) (getInput w ''base-resultset-path'');
          head_path = path_resolve w (process_cwd w) (getInput w ''head-resultset-path'')
      in
      case doesPathExists w base_path of Inl e \<Rightarrow> ([], Inl e) | Inr _ \<Rightarrow>
      case doesPathExists w head_path of Inl e \<Rightarrow> ([], Inl e) | Inr _ \<Rightarrow>
      case parseResultset w base_path of Inl e \<Rightarrow> ([], Inl e) | Inr base_set \<Rightarrow>
      case parseResultset w head_path of Inl e \<Rightarrow> ([], Inl e) | Inr head_set \<Rightarrow>
      case build base_set of Inl e \<Rightarrow> ([], Inl e) | Inr base \<Rightarrow>
      case build head_set of Inl e \<Rightarrow> ([], Inl e) | Inr head \<Rightarrow>
      let diff = getCoverageDiff base head;
          content = reportContent (markdownTable w) (numberToString w) (WORKSPACE w) diff;
          (logged, commitSha) = resolveCommitSha (github_context w);
          message = reportMessage content commitSha
      in
      case getOctokit w (getInput w ''token'') of Some e \<Rightarrow> (logged, Inl e) | None \<Rightarrow>
      case issue_number (github_context w) of Inl e \<Rightarrow> (logged, Inl e) | Inr pullRequestId \<Rightarrow>
      if falsy pullRequestId then
        (logged @ [Warning ''Cannot find the PR id.'', Info message], Inr ())
      else
        let request = CreateComment (repo_owner (github_context w)) (repo_repo (github_context w))
                        (the pullRequestId) message
        in
        case createComment w (repo_owner (github_context w)) (repo_repo (github_context w))
               (the pullRequestId) message of
          Some e \<Rightarrow> (logged @ [request], Inl e)
        | None \<Rightarrow> (logged @ [request], Inr ()))"

text \<open>
  \<^verbatim>\<open>run\<close>: the \<^verbatim>\<open>catch\<close> reports the message of the exception with
  \<^verbatim>\<open>core.setFailed\<close>.
\<close>

definition run :: "World \<Rightarrow> event list" where
  "run w =
     (case run_try w of
        (logged, Inl e) \<Rightarrow> logged @ [SetFailed (message e)]
      | (logged, Inr _) \<Rightarrow> logged)"

text \<open>A world for the examples: one suite with one file on each side, a push event
  and no pull request in the context.\<close>

definition example_table :: "string list list \<Rightarrow> string" where
  "example_table rows = concat (map (\<lambda>row. CHR ''|'' # concat (map (\<lambda>cell. cell @ ''|'') row) @ [CHR 0x0A]) rows)"

definition example_set :: "LineCoverage \<Rightarrow> ResultSet" where
  "example_set ls =
     [(''RSpec'', \<lparr>coverage = Some [(''a.rb'', \<lparr>raw_lines = Some ls, raw_branches = Some []\<rparr>)]\<rparr>)]"

definition example_world :: World where
  "example_world =
     \<lparr>getInput = (\<lambda>name. if name = ''base-resultset-path'' then ''base.json''
                         else if name = ''head-resultset-path'' then ''head.json''
                         else ''secret''),
      process_cwd = ''/work'',
      WORKSPACE = ''/work'',
      path_resolve = (\<lambda>dir p. if prefix ''/'' p then p else dir @ ''/'' @ p),
      existsSync = (\<lambda>p. True),
      readJSON = (\<lambda>p. if p = ''/work/base.json'' then Inr (example_set [Some 1, Some 1, Some 0])
                       else Inr (example_set [Some 1, Some 1, Some 1])),
      github_context =
        \<lparr>eventName = ''push'', payload_action = None, payload_after = ''abc123'',
         payload_json = ''{}'', context_sha = ''abc123'', issue_number = Inr None,
         repo_owner = ''owner'', repo_repo = ''repo''\<rparr>,
      getOctokit = (\<lambda>token. None),
      createComment = (\<lambda>owner repo number body. None),
      markdownTable = example_table,
      numberToString = (\<lambda>n. ''?'')\<rparr>"

section \<open>Facts about the model\<close>

subsection \<open>Arithmetic of the formatter\<close>

lemma roundTiesToEven_nonneg: "0 \<le> y \<Longrightarrow> 0 \<le> roundTiesToEven y"
  by (auto simp: roundTiesToEven_def Let_def)

lemma pow2_pos: "0 < pow2 k"
  by (simp add: pow2_def)

text \<open>Rounding a positive value gives the positive infinity or a double that is not
  negative.\<close>

lemma round64_pos: "0 < x \<Longrightarrow> round64 x = PosInf \<or> (\<exists>w. 0 \<le> w \<and> round64 x = Num w)"
proof -
  assume pos: "0 < x"
  let ?ulp = "pow2 (exponent \<bar>x\<bar> - 52)"
  have "0 \<le> \<bar>x\<bar> / ?ulp"
    using pow2_pos[of "exponent \<bar>x\<bar> - 52"] by simp
  then have "0 \<le> roundTiesToEven (\<bar>x\<bar> / ?ulp)"
    by (rule roundTiesToEven_nonneg)
  then have "0 \<le> of_int (roundTiesToEven (\<bar>x\<bar> / ?ulp)) * ?ulp"
    using pow2_pos[of "exponent \<bar>x\<bar> - 52"] by simp
  with pos show ?thesis
    by (auto simp: round64_def Let_def)
qed

text \<open>On the scaled absolute value, which is never negative, truncation is the floor.\<close>

lemma trunc_floor_scaled:
  "Math_trunc (fmul (Math_abs x) (Num 10)) = Math_floor (fmul (Math_abs x) (Num 10))"
proof (cases x)
  case (Num v)
  show ?thesis
  proof (cases "v = 0")
    case True
    with Num show ?thesis
      by (simp add: fmul_def signed_zero_def)
  next
    case False
    then have "0 < \<bar>v\<bar> * 10" by simp
    from round64_pos[OF this] False Num show ?thesis
      by (auto simp: fmul_def)
  qed
qed (simp_all add: fmul_def infinity_def signed_zero_def is_zero_def)

subsection \<open>Exponents and doubles\<close>

lemma pow2_powi: "pow2 k = 2 powi k"
  by (simp add: pow2_def power_int_def power_inverse inverse_eq_divide power_one_over)

lemma pow2_add: "pow2 (i + j) = pow2 i * pow2 j"
  by (simp add: pow2_powi power_int_add)

lemma pow2_strict_mono: "pow2 i < pow2 j \<longleftrightarrow> i < j"
proof
  assume "i < j"
  then show "pow2 i < pow2 j"
    unfolding pow2_powi by (rule power_int_strict_increasing) simp
next
  assume less: "pow2 i < pow2 j"
  show "i < j"
  proof (rule ccontr)
    assume "\<not> i < j"
    then have "j \<le> i" by simp
    then have "pow2 j \<le> pow2 i"
      unfolding pow2_powi by (rule power_int_increasing) simp
    with less show False by simp
  qed
qed

lemma pow2_mono: "pow2 i \<le> pow2 j \<longleftrightarrow> i \<le> j"
  using pow2_strict_mono[of j i] by (auto simp: not_less[symmetric])

lemma pow2_nat: "pow2 (int n) = 2 ^ n"
  by (simp add: pow2_def)

lemma halvings_bounds: "1 \<le> a \<Longrightarrow> 2 ^ halvings a \<le> a \<and> a < 2 ^ Suc (halvings a)"
proof (induction a rule: halvings.induct)
  case (1 a)
  show ?case
  proof (cases "a < 2")
    case True
    with "1.prems" show ?thesis by (simp add: halvings.simps)
  next
    case False
    then have "1 \<le> a / 2" by simp
    from "1.IH"[OF False this] False show ?thesis
      by (simp add: halvings.simps[of a])
  qed
qed

lemma doublings_bounds:
  "0 < a \<Longrightarrow> a < 1 \<Longrightarrow>
   doublings k a \<le> k \<and> a * 2 ^ doublings k a < 2 \<and> (doublings k a < k \<longrightarrow> 1 \<le> a * 2 ^ doublings k a)"
proof (induction k arbitrary: a)
  case 0
  then show ?case by (simp add: doublings.simps)
next
  case (Suc k)
  show ?case
  proof (cases "1 \<le> 2 * a")
    case True
    have "doublings k (2 * a) = 0" using True by (simp add: doublings.simps)
    with Suc.prems True show ?thesis by (simp add: doublings.simps[of "Suc k" a])
  next
    case False
    then have "2 * a < 1" by simp
    moreover have "0 < 2 * a" using Suc.prems by simp
    ultimately have "0 < 2 * a" and "2 * a < 1" by simp_all
    then have "doublings k (2 * a) \<le> k \<and> (2 * a) * 2 ^ doublings k (2 * a) < 2
        \<and> (doublings k (2 * a) < k \<longrightarrow> 1 \<le> (2 * a) * 2 ^ doublings k (2 * a))"
      by (rule Suc.IH)
    with Suc.prems show ?thesis by (simp add: doublings.simps[of "Suc k" a] mult.assoc mult.left_commute)
  qed
qed

lemma exponent_min: "- 1022 \<le> exponent a"
proof (cases "1 \<le> a")
  case True
  then show ?thesis by (simp add: exponent_def)
next
  case False
  show ?thesis
  proof (cases "0 < a")
    case True
    with False doublings_bounds[of a 1022] show ?thesis by (simp add: exponent_def)
  next
    case nonpos: False
    have "doublings k a \<le> k" for k
    proof (induction k arbitrary: a)
      case 0
      show ?case by (simp add: doublings.simps)
    next
      case (Suc k)
      from Suc[of "2 * a"] show ?case by (simp add: doublings.simps[of "Suc k" a])
    qed
    from this[of 1022] False show ?thesis by (simp add: exponent_def)
  qed
qed

lemma exponent_upper: "0 < a \<Longrightarrow> a < pow2 (exponent a + 1)"
proof (cases "1 \<le> a")
  case True
  from halvings_bounds[OF True] have "a < 2 ^ Suc (halvings a)" by simp
  also have "2 ^ Suc (halvings a) = pow2 (int (halvings a) + 1)"
    using pow2_nat[of "Suc (halvings a)"] by (simp add: add.commute)
  finally show ?thesis using True by (simp add: exponent_def)
next
  case False
  assume pos: "0 < a"
  let ?d = "doublings 1022 a"
  from doublings_bounds[OF pos, of 1022] False have "a * 2 ^ ?d < 2" by simp
  then have "a < 2 / 2 ^ ?d" by (simp add: field_simps)
  also have "2 / 2 ^ ?d = pow2 (- int ?d + 1)"
    using pow2_add[of "- int ?d" 1] by (simp add: pow2_def)
  finally show ?thesis using False by (simp add: exponent_def)
qed

lemma exponent_lower: "0 < a \<Longrightarrow> - 1022 < exponent a \<Longrightarrow> pow2 (exponent a) \<le> a"
proof (cases "1 \<le> a")
  case True
  from halvings_bounds[OF True] have "2 ^ halvings a \<le> a" by simp
  then show ?thesis using True by (simp add: exponent_def pow2_nat)
next
  case False
  assume pos: "0 < a" and above: "- 1022 < exponent a"
  let ?d = "doublings 1022 a"
  from above False have "?d < 1022" by (simp add: exponent_def)
  with doublings_bounds[OF pos, of 1022] False have "1 \<le> a * 2 ^ ?d" by simp
  then have "1 / 2 ^ ?d \<le> a" by (simp add: field_simps)
  moreover have "pow2 (- int ?d) = 1 / 2 ^ ?d" by (simp add: pow2_def)
  ultimately show ?thesis using False by (simp add: exponent_def)
qed

lemma exponent_unique:
  assumes "- 1022 \<le> k" and "pow2 k \<le> a" and "a < pow2 (k + 1)"
  shows "exponent a = k"
proof -
  have pos: "0 < a" using assms(2) pow2_pos[of k] by simp
  have "exponent a \<le> k"
  proof (rule ccontr)
    assume "\<not> exponent a \<le> k"
    then have more: "k + 1 \<le> exponent a" by simp
    with assms(1) have "- 1022 < exponent a" by simp
    from exponent_lower[OF pos this] have "pow2 (exponent a) \<le> a" .
    moreover from more have "pow2 (k + 1) \<le> pow2 (exponent a)" by (simp add: pow2_mono)
    ultimately show False using assms(3) by simp
  qed
  moreover have "k \<le> exponent a"
  proof (rule ccontr)
    assume "\<not> k \<le> exponent a"
    then have "exponent a + 1 \<le> k" by simp
    then have "pow2 (exponent a + 1) \<le> pow2 k" by (simp add: pow2_mono)
    with exponent_upper[OF pos] assms(2) show False by simp
  qed
  ultimately show ?thesis by simp
qed

lemma exponent_subnormal:
  assumes "0 < a" and "a < pow2 (- 1022)"
  shows "exponent a = - 1022"
proof (rule ccontr)
  assume "exponent a \<noteq> - 1022"
  with exponent_min[of a] have above: "- 1022 < exponent a" by simp
  from exponent_lower[OF assms(1) above] have "pow2 (exponent a) \<le> a" .
  moreover from above have "pow2 (- 1022) \<le> pow2 (exponent a)" by (simp add: pow2_mono)
  ultimately show False using assms(2) by simp
qed

lemma roundTiesToEven_of_int: "roundTiesToEven (of_int m) = m"
  by (simp add: roundTiesToEven_def)

lemma roundTiesToEven_le: "y < of_int M \<Longrightarrow> roundTiesToEven y \<le> M"
proof -
  assume "y < of_int M"
  then have "\<lfloor>y\<rfloor> < M" by (simp add: floor_less_iff)
  then show ?thesis by (auto simp: roundTiesToEven_def Let_def)
qed

lemma roundTiesToEven_ge: "of_int M \<le> y \<Longrightarrow> M \<le> roundTiesToEven y"
proof -
  assume "of_int M \<le> y"
  then have "M \<le> \<lfloor>y\<rfloor>" by (simp add: le_floor_iff)
  then show ?thesis by (auto simp: roundTiesToEven_def Let_def)
qed

text \<open>A positive value below the overflow threshold that is a whole number of units in the last
  place is a double.\<close>

lemma round64_fix:
  assumes "0 < w" and "w = of_int m * pow2 (exponent w - 52)" and "w < pow2 1024"
  shows "round64 w = Num w"
proof -
  have "w / pow2 (exponent w - 52) = of_int m"
    using assms(2) pow2_pos[of "exponent w - 52"] by (simp add: field_simps)
  then have "of_int (roundTiesToEven (\<bar>w\<bar> / pow2 (exponent \<bar>w\<bar> - 52))) * pow2 (exponent \<bar>w\<bar> - 52) = w"
    using assms(1,2) by (simp add: roundTiesToEven_of_int)
  with assms(1,3) show ?thesis
    by (simp add: round64_def Let_def)
qed

lemma pow2_shift: "pow2 (k + int n) = pow2 k * 2 ^ n"
  by (simp add: pow2_add pow2_nat)

lemma pow2_split52: "pow2 k = pow2 (k - 52) * 2 ^ 52"
proof -
  have "pow2 ((k - 52) + int 52) = pow2 (k - 52) * 2 ^ 52" by (rule pow2_shift)
  moreover have "(k - 52) + int 52 = k" by simp
  ultimately show ?thesis by metis
qed

lemma pow2_split53: "pow2 (k + 1) = pow2 (k - 52) * 2 ^ 53"
proof -
  have "pow2 ((k - 52) + int 53) = pow2 (k - 52) * 2 ^ 53" by (rule pow2_shift)
  moreover have "(k - 52) + int 53 = k + 1" by simp
  ultimately show ?thesis by metis
qed

text \<open>What a rounding that ends in a finite double other than zero is made of.\<close>

lemma round64_decomp:
  assumes "0 < y" and "round64 y = Num w" and "w \<noteq> 0"
  obtains m where "0 < m" and "m \<le> 2 ^ 53" and "w = of_int m * pow2 (exponent y - 52)"
    and "w < pow2 1024" and "- 1022 < exponent y \<Longrightarrow> 2 ^ 52 \<le> m"
proof -
  define ulp where "ulp = pow2 (exponent y - 52)"
  define m where "m = roundTiesToEven (y / ulp)"
  have ulp_pos: "0 < ulp" by (simp add: ulp_def pow2_pos)
  from assms have w: "w = of_int m * ulp" and small: "w < pow2 1024"
    by (auto simp: round64_def Let_def ulp_def m_def split: if_splits)
  have "0 \<le> y / ulp" using assms(1) ulp_pos by simp
  then have "0 \<le> m" unfolding m_def by (rule roundTiesToEven_nonneg)
  with w assms(3) have m_pos: "0 < m" by (cases "m = 0") simp_all
  have "pow2 (exponent y + 1) = ulp * 2 ^ 53"
    unfolding ulp_def by (rule pow2_split53)
  with exponent_upper[OF assms(1)] have "y < ulp * 2 ^ 53" by simp
  then have "y / ulp < of_int (2 ^ 53)" using ulp_pos by (simp add: field_simps)
  then have m_le: "m \<le> 2 ^ 53" unfolding m_def by (rule roundTiesToEven_le)
  have m_ge: "2 ^ 52 \<le> m" if "- 1022 < exponent y"
  proof -
    have "pow2 (exponent y) = ulp * 2 ^ 52"
      unfolding ulp_def by (rule pow2_split52)
    with exponent_lower[OF assms(1) that] have "ulp * 2 ^ 52 \<le> y" by simp
    then have "of_int (2 ^ 52) \<le> y / ulp" using ulp_pos by (simp add: field_simps)
    then show ?thesis unfolding m_def by (rule roundTiesToEven_ge)
  qed
  from m_pos m_le w small m_ge show ?thesis
    unfolding ulp_def by (rule that)
qed

text \<open>Rounding is idempotent: a double rounds to itself.\<close>

lemma round64_idem:
  assumes "0 < y" and "round64 y = Num w" and "w \<noteq> 0"
  shows "round64 w = Num w"
proof -
  define e where "e = exponent y"
  from round64_decomp[OF assms] obtain m where
    m_pos: "0 < m" and m_le: "m \<le> 2 ^ 53" and w: "w = of_int m * pow2 (e - 52)"
    and small: "w < pow2 1024" and m_ge: "- 1022 < e \<Longrightarrow> 2 ^ 52 \<le> m"
    unfolding e_def by blast
  have ulp_pos: "0 < pow2 (e - 52)" by (rule pow2_pos)
  have w_pos: "0 < w" using w m_pos ulp_pos by simp
  have e_min: "- 1022 \<le> e" unfolding e_def by (rule exponent_min)
  have upper: "pow2 (e + 1) = pow2 (e - 52) * 2 ^ 53"
    by (rule pow2_split53)
  have lower: "pow2 e = pow2 (e - 52) * 2 ^ 52"
    by (rule pow2_split52)
  consider (top) "m = 2 ^ 53" | (normal) "2 ^ 52 \<le> m" "m < 2 ^ 53" | (sub) "m < 2 ^ 52"
    using m_le by linarith
  then show ?thesis
  proof cases
    case top
    then have at_top: "w = pow2 (e + 1)" using w upper by simp
    have "exponent w = e + 1"
    proof (rule exponent_unique)
      show "- 1022 \<le> e + 1" using e_min by simp
      show "pow2 (e + 1) \<le> w" using at_top by simp
      show "w < pow2 (e + 1 + 1)" using at_top by (simp add: pow2_strict_mono)
    qed
    moreover have "pow2 (e + 1) = of_int (2 ^ 52) * pow2 (e + 1 - 52)"
      using pow2_split52[of "e + 1"] by simp
    ultimately have "w = of_int (2 ^ 52) * pow2 (exponent w - 52)" using at_top by simp
    from round64_fix[OF w_pos this small] show ?thesis .
  next
    case normal
    have "of_int m < (2 ^ 53 :: real)" using normal(2) by (metis of_int_less_iff of_int_numeral of_int_power)
    then have "w < pow2 (e + 1)" unfolding w upper using ulp_pos by (simp add: mult.commute)
    moreover have "(2 ^ 52 :: real) \<le> of_int m" using normal(1) by (metis of_int_le_iff of_int_numeral of_int_power)
    then have "pow2 e \<le> w" unfolding w lower using ulp_pos by (simp add: mult.commute)
    ultimately have "exponent w = e" using e_min by (intro exponent_unique)
    with w have "w = of_int m * pow2 (exponent w - 52)" by simp
    from round64_fix[OF w_pos this small] show ?thesis .
  next
    case sub
    with m_ge have "\<not> - 1022 < e" by fastforce
    with e_min have e: "e = - 1022" by simp
    have "of_int m < (2 ^ 52 :: real)" using sub by (metis of_int_less_iff of_int_numeral of_int_power)
    then have "w < pow2 e" unfolding w lower using ulp_pos by (simp add: mult.commute)
    then have "exponent w = - 1022" using w_pos e by (intro exponent_subnormal) simp_all
    with w e have "w = of_int m * pow2 (exponent w - 52)" by simp
    from round64_fix[OF w_pos this small] show ?thesis .
  qed
qed

text \<open>Every whole number up to \<open>2 ^ 53\<close> is a double.\<close>

lemma round64_int:
  assumes "0 \<le> F" and "F \<le> 2 ^ 53"
  shows "round64 (of_int F) = Num (of_int F)"
proof (cases "F = 0")
  case True
  then show ?thesis by (simp add: round64_def)
next
  case False
  define a :: real where "a = of_int F"
  define h where "h = halvings a"
  from False assms(1) have "1 \<le> F" by simp
  then have one: "1 \<le> a" unfolding a_def by simp
  then have pos: "0 < a" by simp
  from halvings_bounds[OF one] have low: "2 ^ h \<le> a" and high: "a < 2 ^ Suc h"
    unfolding h_def by simp_all
  have expo: "exponent a = int h" using one by (simp add: exponent_def h_def)
  have top: "a \<le> 2 ^ 53" unfolding a_def using assms(2)
    by (metis of_int_le_iff of_int_numeral of_int_power)
  from low top have "(2::real) ^ h \<le> 2 ^ 53" by (rule order_trans)
  then have h_le: "h \<le> 53" by (rule power_le_imp_le_exp[rotated]) simp
  have "pow2 53 < pow2 1024" by (simp add: pow2_strict_mono)
  moreover have "pow2 53 = 2 ^ 53" using pow2_nat[of 53] by simp
  ultimately have small: "a < pow2 1024" using top by simp
  show ?thesis
  proof (cases "h = 53")
    case True
    with low top have a: "a = 2 ^ 53" by simp
    have "pow2 (int h - 52) = 2" using True by (simp add: pow2_def)
    then have "a = of_int (2 ^ 52) * pow2 (exponent a - 52)" using a expo by simp
    from round64_fix[OF pos this small] show ?thesis unfolding a_def .
  next
    case False
    with h_le have h52: "h \<le> 52" by simp
    have "pow2 (int h - 52) = 1 / 2 ^ (52 - h)"
    proof (cases "h = 52")
      case True
      then show ?thesis by (simp add: pow2_def)
    next
      case False
      with h52 have "h < 52" by simp
      then have "nat (52 - int h) = 52 - h" by simp
      with \<open>h < 52\<close> show ?thesis by (simp add: pow2_def)
    qed
    then have scaled: "a = of_int (F * 2 ^ (52 - h)) * pow2 (int h - 52)"
      by (simp add: a_def)
    have "a = of_int (F * 2 ^ (52 - h)) * pow2 (exponent a - 52)"
      by (metis scaled expo)
    from round64_fix[OF pos this small] show ?thesis unfolding a_def .
  qed
qed

text \<open>The floor of a double that a rounding gives is a double.\<close>

lemma round64_floor:
  assumes "0 < y" and "round64 y = Num w"
  shows "round64 (of_int \<lfloor>w\<rfloor>) = Num (of_int \<lfloor>w\<rfloor>)"
proof (cases "w = 0")
  case True
  then show ?thesis by (simp add: round64_def)
next
  case False
  from round64_decomp[OF assms False] obtain m where
    m_pos: "0 < m" and m_le: "m \<le> 2 ^ 53" and w: "w = of_int m * pow2 (exponent y - 52)"
    and small: "w < pow2 1024"
    by blast
  show ?thesis
  proof (cases "0 \<le> exponent y - 52")
    case True
    then have "pow2 (exponent y - 52) = of_int (2 ^ nat (exponent y - 52))"
      by (simp add: pow2_def)
    with w have "w = of_int (m * 2 ^ nat (exponent y - 52))" by simp
    then have whole: "of_int \<lfloor>w\<rfloor> = w" by (metis floor_of_int)
    show ?thesis unfolding whole by (rule round64_idem[OF assms False])
  next
    case negative: False
    then have "pow2 (exponent y - 52) \<le> pow2 0" by (simp add: pow2_mono)
    then have "pow2 (exponent y - 52) \<le> 1" by (simp add: pow2_def)
    moreover have "0 < pow2 (exponent y - 52)" by (rule pow2_pos)
    ultimately have "w \<le> of_int m" and "0 \<le> w"
      using w m_pos by (simp_all add: mult_left_le)
    then have below: "\<lfloor>w\<rfloor> \<le> m" and above: "0 \<le> \<lfloor>w\<rfloor>"
      by (metis floor_mono floor_of_int) (simp add: \<open>0 \<le> w\<close>)
    from below m_le have "\<lfloor>w\<rfloor> \<le> 2 ^ 53" by (rule order_trans)
    with above show ?thesis by (rule round64_int)
  qed
qed

text \<open>Rounding commutes with the change of sign.\<close>

lemma round64_minus: "x \<noteq> 0 \<Longrightarrow> round64 (- x) = fneg (round64 x)"
  by (auto simp: round64_def Let_def)

text \<open>Multiplying by 1 or by -1 is exact.\<close>

lemma fmul_unit:
  assumes "round64 q = Num q" and "0 \<le> q"
  shows "fmul (Num 1) (Num q) = Num q" and "fmul (Num (- 1)) (Num q) = fneg (Num q)"
proof -
  show "fmul (Num 1) (Num q) = Num q"
    using assms by (simp add: fmul_def signed_zero_def)
  show "fmul (Num (- 1)) (Num q) = fneg (Num q)"
  proof (cases "q = 0")
    case True
    then show ?thesis by (simp add: fmul_def signed_zero_def)
  next
    case False
    with round64_minus[of q] assms show ?thesis by (simp add: fmul_def)
  qed
qed

lemma fmul_unit_round:
  assumes "0 < y"
  shows "fmul (Num 1) (round64 y) = round64 y" and "fmul (Num (- 1)) (round64 y) = fneg (round64 y)"
proof -
  from round64_pos[OF assms] consider "round64 y = PosInf" | q where "0 \<le> q" "round64 y = Num q"
    by blast
  then have "fmul (Num 1) (round64 y) = round64 y \<and> fmul (Num (- 1)) (round64 y) = fneg (round64 y)"
  proof cases
    case 1
    then show ?thesis by (simp add: fmul_def infinity_def is_zero_def)
  next
    case 2
    have "round64 q = Num q"
    proof (cases "q = 0")
      case True
      then show ?thesis by (simp add: round64_def)
    next
      case False
      from round64_idem[OF assms 2(2) False] show ?thesis .
    qed
    from fmul_unit[OF this 2(1)] 2(2) show ?thesis by simp
  qed
  then show "fmul (Num 1) (round64 y) = round64 y"
    and "fmul (Num (- 1)) (round64 y) = fneg (round64 y)" by simp_all
qed

text \<open>The sign may be multiplied before or after the division by ten.\<close>

lemma sign_scaled_assoc:
  "fmul (Math_sign x) (fdiv (Math_floor (fmul (Math_abs x) (Num 10))) (Num 10))
   = fdiv (fmul (Math_sign x) (Math_floor (fmul (Math_abs x) (Num 10)))) (Num 10)"
proof (cases x)
  case (Num v)
  show ?thesis
  proof (cases "v = 0")
    case True
    with Num show ?thesis
      by (simp add: fmul_def fdiv_def signed_zero_def is_zero_def)
  next
    case False
    then have pos: "0 < \<bar>v\<bar> * 10" by simp
    have scaled: "fmul (Math_abs x) (Num 10) = round64 (\<bar>v\<bar> * 10)"
      using Num False by (simp add: fmul_def)
    from round64_pos[OF pos] consider (inf) "round64 (\<bar>v\<bar> * 10) = PosInf"
      | (fin) w where "0 \<le> w" "round64 (\<bar>v\<bar> * 10) = Num w"
      by blast
    then show ?thesis
    proof cases
      case inf
      with Num False show ?thesis
        unfolding scaled by (simp add: fmul_def fdiv_def infinity_def is_zero_def)
    next
      case fin
      define F :: real where "F = of_int \<lfloor>w\<rfloor>"
      have F_nonneg: "0 \<le> F" using fin(1) by (simp add: F_def)
      have F_double: "round64 F = Num F"
        unfolding F_def using pos fin(2) by (rule round64_floor)
      have floor: "Math_floor (fmul (Math_abs x) (Num 10)) = Num F"
        unfolding scaled fin(2) F_def by simp
      note unit = fmul_unit[OF F_double F_nonneg]
      show ?thesis
      proof (cases "F = 0")
        case True
        with Num False show ?thesis
          unfolding floor by (simp add: fmul_def fdiv_def signed_zero_def is_zero_def)
      next
        case nonzero: False
        with F_nonneg have ratio: "0 < F / 10" by simp
        have quotient: "fdiv (Num F) (Num 10) = round64 (F / 10)"
          using nonzero by (simp add: fdiv_def is_zero_def)
        show ?thesis
        proof (cases "0 < v")
          case True
          then have sign: "Math_sign x = Num 1" using Num by simp
          show ?thesis
            unfolding floor sign unit(1) quotient using fmul_unit_round(1)[OF ratio] .
        next
          case negative: False
          with False have sign: "Math_sign x = Num (- 1)" using Num by simp
          have "fdiv (fneg (Num F)) (Num 10) = round64 (- (F / 10))"
            using nonzero by (simp add: fdiv_def is_zero_def)
          also have "\<dots> = fneg (round64 (F / 10))"
            using ratio by (intro round64_minus) simp
          finally show ?thesis
            unfolding floor sign unit(2) quotient using fmul_unit_round(2)[OF ratio] by simp
        qed
      qed
    qed
  qed
qed (simp_all add: fmul_def fdiv_def infinity_def signed_zero_def is_zero_def)

subsection \<open>The operations at the values of the examples\<close>

text \<open>Each operation is evaluated from its definition: the exponent of the exact result,
  then its rounding.\<close>

lemma div_2_3: "fdiv (Num 2) (Num 3) = Num (6004799503160661 / 9007199254740992)"
proof -
  have e: "exponent (2 / 3) = - 1"
    by (simp add: exponent_def halvings.simps doublings.simps)
  have r: "round64 (2 / 3) = Num (6004799503160661 / 9007199254740992)"
    unfolding round64_def Let_def by (simp add: e pow2_def roundTiesToEven_def)
  show ?thesis
    by (simp add: fdiv_def is_zero_def r)
qed

lemma mul_two_thirds_100: "fmul (Num (6004799503160661 / 9007199254740992)) (Num 100) = Num (2345624805922133 / 35184372088832)"
proof -
  have e: "exponent (150119987579016525 / 2251799813685248) = 6"
    by (simp add: exponent_def halvings.simps doublings.simps)
  have r: "round64 (150119987579016525 / 2251799813685248) = Num (2345624805922133 / 35184372088832)"
    unfolding round64_def Let_def by (simp add: e pow2_def roundTiesToEven_def)
  show ?thesis
    by (simp add: fmul_def is_zero_def r)
qed

lemma div_3_3: "fdiv (Num 3) (Num 3) = Num 1"
proof -
  have e: "exponent 1 = 0"
    by (simp add: exponent_def halvings.simps doublings.simps)
  have r: "round64 1 = Num 1"
    unfolding round64_def Let_def by (simp add: e pow2_def roundTiesToEven_def)
  show ?thesis
    by (simp add: fdiv_def is_zero_def r)
qed


lemma mul_1_100: "fmul (Num 1) (Num 100) = Num 100"
proof -
  have e: "exponent 100 = 6"
    by (simp add: exponent_def halvings.simps doublings.simps)
  have r: "round64 100 = Num 100"
    unfolding round64_def Let_def by (simp add: e pow2_def roundTiesToEven_def)
  show ?thesis
    by (simp add: fmul_def is_zero_def r)
qed

lemma mul_from_10: "fmul (Num (2345624805922133 / 35184372088832)) (Num 10) = Num (1466015503701333 / 2199023255552)"
proof -
  have e: "exponent (11728124029610665 / 17592186044416) = 9"
    by (simp add: exponent_def halvings.simps doublings.simps)
  have r: "round64 (11728124029610665 / 17592186044416) = Num (1466015503701333 / 2199023255552)"
    unfolding round64_def Let_def by (simp add: e pow2_def roundTiesToEven_def)
  show ?thesis
    by (simp add: fmul_def is_zero_def r)
qed

lemma div_666_10: "fdiv (Num 666) (Num 10) = Num (2343279181116211 / 35184372088832)"
proof -
  have e: "exponent (333 / 5) = 6"
    by (simp add: exponent_def halvings.simps doublings.simps)
  have r: "round64 (333 / 5) = Num (2343279181116211 / 35184372088832)"
    unfolding round64_def Let_def by (simp add: e pow2_def roundTiesToEven_def)
  show ?thesis
    by (simp add: fdiv_def is_zero_def r)
qed

lemma mul_1_66_6: "fmul (Num 1) (Num (2343279181116211 / 35184372088832)) = Num (2343279181116211 / 35184372088832)"
proof -
  have e: "exponent (2343279181116211 / 35184372088832) = 6"
    by (simp add: exponent_def halvings.simps doublings.simps)
  have r: "round64 (2343279181116211 / 35184372088832) = Num (2343279181116211 / 35184372088832)"
    unfolding round64_def Let_def by (simp add: e pow2_def roundTiesToEven_def)
  show ?thesis
    by (simp add: fmul_def is_zero_def r)
qed

lemma lit_66_6: "lit 66.6 = Num (2343279181116211 / 35184372088832)"
proof -
  have e: "exponent (333 / 5) = 6"
    by (simp add: exponent_def halvings.simps doublings.simps)
  have r: "round64 (333 / 5) = Num (2343279181116211 / 35184372088832)"
    unfolding round64_def Let_def by (simp add: e pow2_def roundTiesToEven_def)
  show ?thesis
    by (simp add: lit_def r)
qed

lemma lit_66_666: "lit 66.666 = Num (1172800674837037 / 17592186044416)"
proof -
  have e: "exponent (33333 / 500) = 6"
    by (simp add: exponent_def halvings.simps doublings.simps)
  have r: "round64 (33333 / 500) = Num (1172800674837037 / 17592186044416)"
    unfolding round64_def Let_def by (simp add: e pow2_def roundTiesToEven_def)
  show ?thesis
    by (simp add: lit_def r)
qed

lemma mul_66_666_10: "fmul (Num (1172800674837037 / 17592186044416)) (Num 10) = Num (5864003374185185 / 8796093022208)"
proof -
  have e: "exponent (5864003374185185 / 8796093022208) = 9"
    by (simp add: exponent_def halvings.simps doublings.simps)
  have r: "round64 (5864003374185185 / 8796093022208) = Num (5864003374185185 / 8796093022208)"
    unfolding round64_def Let_def by (simp add: e pow2_def roundTiesToEven_def)
  show ?thesis
    by (simp add: fmul_def is_zero_def r)
qed

lemma lit_neg_0_05: "lit (- 0.05) = Num (- (3602879701896397 / 72057594037927936))"
proof -
  have e: "exponent (1 / 20) = - 5"
    by (simp add: exponent_def halvings.simps doublings.simps)
  have r: "round64 (- (1 / 20)) = Num (- (3602879701896397 / 72057594037927936))"
    unfolding round64_def Let_def by (simp add: e pow2_def roundTiesToEven_def)
  show ?thesis
    by (simp add: lit_def r)
qed

lemma mul_0_05_10: "fmul (Num (3602879701896397 / 72057594037927936)) (Num 10) = Num (1 / 2)"
proof -
  have e: "exponent (18014398509481985 / 36028797018963968) = - 1"
    by (simp add: exponent_def halvings.simps doublings.simps)
  have r: "round64 (18014398509481985 / 36028797018963968) = Num (1 / 2)"
    unfolding round64_def Let_def by (simp add: e pow2_def roundTiesToEven_def)
  show ?thesis
    by (simp add: fmul_def is_zero_def r)
qed

lemma lit_0_8999: "lit 0.8999999999999999 = Num (2026619832316723 / 2251799813685248)"
proof -
  have e: "exponent (8999999999999999 / 10000000000000000) = - 1"
    by (simp add: exponent_def halvings.simps doublings.simps)
  have r: "round64 (8999999999999999 / 10000000000000000) = Num (2026619832316723 / 2251799813685248)"
    unfolding round64_def Let_def by (simp add: e pow2_def roundTiesToEven_def)
  show ?thesis
    by (simp add: lit_def r)
qed

lemma mul_0_8999_10: "fmul (Num (2026619832316723 / 2251799813685248)) (Num 10) = Num 9"
proof -
  have e: "exponent (10133099161583615 / 1125899906842624) = 3"
    by (simp add: exponent_def halvings.simps doublings.simps)
  have r: "round64 (10133099161583615 / 1125899906842624) = Num 9"
    unfolding round64_def Let_def by (simp add: e pow2_def roundTiesToEven_def)
  show ?thesis
    by (simp add: fmul_def is_zero_def r)
qed

lemma div_9_10: "fdiv (Num 9) (Num 10) = Num (8106479329266893 / 9007199254740992)"
proof -
  have e: "exponent (9 / 10) = - 1"
    by (simp add: exponent_def halvings.simps doublings.simps)
  have r: "round64 (9 / 10) = Num (8106479329266893 / 9007199254740992)"
    unfolding round64_def Let_def by (simp add: e pow2_def roundTiesToEven_def)
  show ?thesis
    by (simp add: fdiv_def is_zero_def r)
qed

lemma mul_1_0_9: "fmul (Num 1) (Num (8106479329266893 / 9007199254740992)) = Num (8106479329266893 / 9007199254740992)"
proof -
  have e: "exponent (8106479329266893 / 9007199254740992) = - 1"
    by (simp add: exponent_def halvings.simps doublings.simps)
  have r: "round64 (8106479329266893 / 9007199254740992) = Num (8106479329266893 / 9007199254740992)"
    unfolding round64_def Let_def by (simp add: e pow2_def roundTiesToEven_def)
  show ?thesis
    by (simp add: fmul_def is_zero_def r)
qed

lemma lit_0_9: "lit 0.9 = Num (8106479329266893 / 9007199254740992)"
proof -
  have e: "exponent (9 / 10) = - 1"
    by (simp add: exponent_def halvings.simps doublings.simps)
  have r: "round64 (9 / 10) = Num (8106479329266893 / 9007199254740992)"
    unfolding round64_def Let_def by (simp add: e pow2_def roundTiesToEven_def)
  show ?thesis
    by (simp add: lit_def r)
qed

lemma lit_0_8: "lit 0.8 = Num (3602879701896397 / 4503599627370496)"
proof -
  have e: "exponent (4 / 5) = - 1"
    by (simp add: exponent_def halvings.simps doublings.simps)
  have r: "round64 (4 / 5) = Num (3602879701896397 / 4503599627370496)"
    unfolding round64_def Let_def by (simp add: e pow2_def roundTiesToEven_def)
  show ?thesis
    by (simp add: lit_def r)
qed

lemma lit_0_7: "lit 0.7 = Num (3152519739159347 / 4503599627370496)"
proof -
  have e: "exponent (7 / 10) = - 1"
    by (simp add: exponent_def halvings.simps doublings.simps)
  have r: "round64 (7 / 10) = Num (3152519739159347 / 4503599627370496)"
    unfolding round64_def Let_def by (simp add: e pow2_def roundTiesToEven_def)
  show ?thesis
    by (simp add: lit_def r)
qed

lemma mul_0_7_10: "fmul (Num (3152519739159347 / 4503599627370496)) (Num 10) = Num 7"
proof -
  have e: "exponent (15762598695796735 / 2251799813685248) = 2"
    by (simp add: exponent_def halvings.simps doublings.simps)
  have r: "round64 (15762598695796735 / 2251799813685248) = Num 7"
    unfolding round64_def Let_def by (simp add: e pow2_def roundTiesToEven_def)
  show ?thesis
    by (simp add: fmul_def is_zero_def r)
qed

lemma div_7_10: "fdiv (Num 7) (Num 10) = Num (3152519739159347 / 4503599627370496)"
proof -
  have e: "exponent (7 / 10) = - 1"
    by (simp add: exponent_def halvings.simps doublings.simps)
  have r: "round64 (7 / 10) = Num (3152519739159347 / 4503599627370496)"
    unfolding round64_def Let_def by (simp add: e pow2_def roundTiesToEven_def)
  show ?thesis
    by (simp add: fdiv_def is_zero_def r)
qed

lemma mul_1_0_7: "fmul (Num 1) (Num (3152519739159347 / 4503599627370496)) = Num (3152519739159347 / 4503599627370496)"
proof -
  have e: "exponent (3152519739159347 / 4503599627370496) = - 1"
    by (simp add: exponent_def halvings.simps doublings.simps)
  have r: "round64 (3152519739159347 / 4503599627370496) = Num (3152519739159347 / 4503599627370496)"
    unfolding round64_def Let_def by (simp add: e pow2_def roundTiesToEven_def)
  show ?thesis
    by (simp add: fmul_def is_zero_def r)
qed

subsection \<open>The union of the paths\<close>

lemma set_foldl_addPath: "set (foldl addPath seen ps) = set seen \<union> set ps"
  by (induction ps arbitrary: seen) (auto simp: addPath_def)

lemma distinct_foldl_addPath: "distinct seen \<Longrightarrow> distinct (foldl addPath seen ps)"
  by (induction ps arbitrary: seen) (auto simp: addPath_def)

lemma set_unionPaths: "set (unionPaths base head) = set (knownPaths base) \<union> set (knownPaths head)"
  by (auto simp: unionPaths_def set_foldl_addPath)

lemma distinct_unionPaths: "distinct (unionPaths base head)"
  by (simp add: unionPaths_def distinct_foldl_addPath)

lemma hasRecord_knownPaths: "hasRecord cov p \<longleftrightarrow> p \<in> set (knownPaths cov)"
  by (simp add: hasRecord_def knownPaths_def map_of_eq_None_iff)

text \<open>The consistency check of the loop never skips a path of the union.\<close>

lemma diffPaths_no_skip:
  "set ps \<subseteq> set (knownPaths base) \<union> set (knownPaths head) \<Longrightarrow>
   diffPaths base head ps = map (diffRecord base head) ps"
  by (induction ps) (auto simp: hasRecord_knownPaths)

lemma getCoverageDiff_map:
  "getCoverageDiff base head = map (diffRecord base head) (unionPaths base head)"
  by (simp add: getCoverageDiff_def diffPaths_no_skip set_unionPaths)

lemma filename_getCoverageDiff: "map filename (getCoverageDiff base head) = unionPaths base head"
  by (simp add: getCoverageDiff_map diffRecord_def comp_def)

lemma once_in_distinct:
  "distinct ps \<Longrightarrow> p \<in> set ps \<Longrightarrow> length (filter (\<lambda>q. q = p) ps) = 1"
  by (induction ps) (auto simp: filter_empty_conv)

subsection \<open>Building a document\<close>








text \<open>Two suites that report one file with line arrays of the same length are built.\<close>

lemma build_same_file:
  assumes "length ls1 = length ls2"
  shows "build [(name1, \<lparr>coverage = Some [(f, \<lparr>raw_lines = Some ls1, raw_branches = Some bs1\<rparr>)]\<rparr>),
                (name2, \<lparr>coverage = Some [(f, \<lparr>raw_lines = Some ls2, raw_branches = Some bs2\<rparr>)]\<rparr>)]
         = Inr [(f, \<lparr>line_hits = map (\<lambda>(x, y). addHits x y) (zip ls1 ls2),
                     branch_hits = mergeBranches bs1 bs2\<rparr>)]"
  using assms by (simp add: build_def validate_def mergeFile_def mergeLines_def)

subsection \<open>The log of the commit resolution\<close>

lemma resolveCommitSha_info: "ev \<in> set (fst (resolveCommitSha c)) \<Longrightarrow> \<exists>m. ev = Info m"
  by (auto simp: resolveCommitSha_def split: if_splits)

section \<open>Completeness of the diff\<close>

text \<open>
  Claim C1. For every pair of coverage documents, the diff has as many records as
  there are file paths in the union of the two documents, and every path of the union
  is the file name of exactly one record (and no record has another file name).
\<close>

theorem getCoverageDiff_complete:
  "length (getCoverageDiff base head) = card (set (knownPaths base) \<union> set (knownPaths head))
   \<and> (\<forall>p \<in> set (knownPaths base) \<union> set (knownPaths head).
        length (filter (\<lambda>d. filename d = p) (getCoverageDiff base head)) = 1)
   \<and> set (map filename (getCoverageDiff base head)) = set (knownPaths base) \<union> set (knownPaths head)"
proof -
  have "length (getCoverageDiff base head) = length (unionPaths base head)"
    by (simp add: getCoverageDiff_map)
  also have "\<dots> = card (set (unionPaths base head))"
    by (simp add: distinct_card distinct_unionPaths)
  finally have size:
    "length (getCoverageDiff base head) = card (set (knownPaths base) \<union> set (knownPaths head))"
    by (simp add: set_unionPaths)
  have once: "length (filter (\<lambda>d. filename d = p) (getCoverageDiff base head)) = 1"
    if "p \<in> set (knownPaths base) \<union> set (knownPaths head)" for p
  proof -
    have "length (filter (\<lambda>d. filename d = p) (getCoverageDiff base head))
          = length (filter (\<lambda>q. q = p) (map filename (getCoverageDiff base head)))"
      by (simp add: filter_map comp_def)
    also have "\<dots> = 1"
      using that
      by (simp add: filename_getCoverageDiff once_in_distinct distinct_unionPaths set_unionPaths)
    finally show ?thesis .
  qed
  have names:
    "set (map filename (getCoverageDiff base head)) = set (knownPaths base) \<union> set (knownPaths head)"
    by (simp only: filename_getCoverageDiff set_unionPaths)
  from size once names show ?thesis by blast
qed

theorem getCoverageDiff_complete_witness:
  "length (getCoverageDiff
        [(''a.rb'', \<lparr>line_hits = [Some 1], branch_hits = []\<rparr>), (''b.rb'', \<lparr>line_hits = [Some 0], branch_hits = []\<rparr>)]
        [(''b.rb'', \<lparr>line_hits = [Some 2], branch_hits = []\<rparr>), (''c.rb'', \<lparr>line_hits = [None], branch_hits = []\<rparr>)])
     = card {''a.rb'', ''b.rb'', ''c.rb''}
   \<and> length (filter (\<lambda>d. filename d = ''b.rb'')
        (getCoverageDiff
          [(''a.rb'', \<lparr>line_hits = [Some 1], branch_hits = []\<rparr>), (''b.rb'', \<lparr>line_hits = [Some 0], branch_hits = []\<rparr>)]
          [(''b.rb'', \<lparr>line_hits = [Some 2], branch_hits = []\<rparr>), (''c.rb'', \<lparr>line_hits = [None], branch_hits = []\<rparr>)]))
     = 1"
proof -
  let ?base = "[(''a.rb'', \<lparr>line_hits = [Some 1], branch_hits = []\<rparr>), (''b.rb'', \<lparr>line_hits = [Some 0], branch_hits = []\<rparr>)]"
  let ?head = "[(''b.rb'', \<lparr>line_hits = [Some 2], branch_hits = []\<rparr>), (''c.rb'', \<lparr>line_hits = [None], branch_hits = []\<rparr>)]"
  have paths: "set (knownPaths ?base) \<union> set (knownPaths ?head) = {''a.rb'', ''b.rb'', ''c.rb''}"
    by (auto simp: knownPaths_def)
  have member: "''b.rb'' \<in> set (knownPaths ?base) \<union> set (knownPaths ?head)"
    by (simp add: knownPaths_def)
  from getCoverageDiff_complete[of ?base ?head] member show ?thesis
    unfolding paths by blast
qed

section \<open>The line percentage\<close>

text \<open>
  Claim C2. For every file record, the line percentage is the number of line entries
  with a hit count above zero, divided by the number of line entries that are not null,
  times 100, in the floating-point arithmetic of the program; it is null exactly when
  no line entry is non-null. The lines [1, 0, null, 3] give 2/3 * 100, which is the
  double 66.66666666666666. The counts are those of the positions of the array.
\<close>

theorem linesPercentage_formula:
  "linesPercentage ls =
     (if card {i. i < length ls \<and> ls ! i \<noteq> None} = 0 then None
      else Some (fmul
                  (fdiv (Num (real (card {i. i < length ls \<and> (\<exists>n. ls ! i = Some n \<and> 0 < n)})))
                        (Num (real (card {i. i < length ls \<and> ls ! i \<noteq> None}))))
                  (Num 100)))
   \<and> (linesPercentage ls = None \<longleftrightarrow> card {i. i < length ls \<and> ls ! i \<noteq> None} = 0)
   \<and> fst (percentageFor ((p, r) # cov) p) = linesPercentage (line_hits r)
   \<and> linesPercentage [Some 1, Some 0, None, Some 3] = Some (fmul (fdiv (Num 2) (Num 3)) (Num 100))
   \<and> fmul (fdiv (Num 2) (Num 3)) (Num 100) = Num (2345624805922133 / 35184372088832)"
proof -
  have instrumentable:
    "length (filter (\<lambda>x. x \<noteq> None) ls) = card {i. i < length ls \<and> ls ! i \<noteq> None}"
    by (rule length_filter_conv_card)
  have "(\<lambda>x. case x of None \<Rightarrow> False | Some n \<Rightarrow> 0 < n) = (\<lambda>x. \<exists>n::nat. x = Some n \<and> 0 < n)"
    by (auto split: option.splits)
  then have covered:
    "length (filter (\<lambda>x. case x of None \<Rightarrow> False | Some n \<Rightarrow> 0 < n) ls)
      = card {i. i < length ls \<and> (\<exists>n. ls ! i = Some n \<and> 0 < n)}"
    by (simp add: length_filter_conv_card)
  have formula: "linesPercentage ls =
     (if card {i. i < length ls \<and> ls ! i \<noteq> None} = 0 then None
      else Some (fmul
                  (fdiv (Num (real (card {i. i < length ls \<and> (\<exists>n. ls ! i = Some n \<and> 0 < n)})))
                        (Num (real (card {i. i < length ls \<and> ls ! i \<noteq> None}))))
                  (Num 100)))"
    unfolding linesPercentage_def Let_def instrumentable covered by (rule refl)
  then have null: "linesPercentage ls = None \<longleftrightarrow> card {i. i < length ls \<and> ls ! i \<noteq> None} = 0"
    by simp
  have lookup: "fst (percentageFor ((p, r) # cov) p) = linesPercentage (line_hits r)"
    by (simp add: percentageFor_def)
  have example:
    "linesPercentage [Some 1, Some 0, None, Some 3] = Some (fmul (fdiv (Num 2) (Num 3)) (Num 100))"
    by (simp add: linesPercentage_def)
  have double: "fmul (fdiv (Num 2) (Num 3)) (Num 100) = Num (2345624805922133 / 35184372088832)"
    by (simp only: div_2_3 mul_two_thirds_100)
  from formula null lookup example double show ?thesis by blast
qed

section \<open>Merging the suites\<close>



section \<open>The truncation law\<close>

text \<open>
  Claim C4, as amended. For every number \<open>x\<close>, \<open>truncPercentage x\<close> is
  \<open>sign x * floor (|x| * 10) / 10\<close> in the arithmetic of the program, where the
  product \<open>|x| * 10\<close> and the quotient by 10 are each rounded to the nearest double;
  the sign may be multiplied before or after the division. In particular 66.666 gives
  66.6, -0.05 gives the negative zero, which \<^verbatim>\<open>===\<close> takes for 0, and NaN
  gives NaN.
\<close>

theorem truncPercentage_law:
  "truncPercentage x
     = fdiv (fmul (Math_sign x) (Math_floor (fmul (Math_abs x) (Num 10)))) (Num 10)
   \<and> truncPercentage x
     = fmul (Math_sign x) (fdiv (Math_floor (fmul (Math_abs x) (Num 10))) (Num 10))
   \<and> truncPercentage (lit 66.666) = lit 66.6
   \<and> truncPercentage (lit (- 0.05)) = NegZero
   \<and> strict_eq (truncPercentage (lit (- 0.05))) (Num 0)
   \<and> truncPercentage NaN = NaN"
proof -
  have general: "truncPercentage x
     = fmul (Math_sign x) (fdiv (Math_floor (fmul (Math_abs x) (Num 10))) (Num 10))"
    by (simp only: truncPercentage_def trunc_floor_scaled)
  then have formula: "truncPercentage x
     = fdiv (fmul (Math_sign x) (Math_floor (fmul (Math_abs x) (Num 10)))) (Num 10)"
    by (simp only: sign_scaled_assoc)
  have up: "truncPercentage (lit 66.666) = lit 66.6"
    unfolding lit_66_666 lit_66_6
    by (simp add: truncPercentage_def mul_66_666_10 div_666_10 mul_1_66_6)
  have scaled: "Math_trunc (fmul (Num (3602879701896397 / 72057594037927936)) (Num 10)) = Num 0"
    by (simp add: mul_0_05_10)
  have quotient: "fdiv (Num 0) (Num 10) = Num 0"
    by (simp add: fdiv_def is_zero_def signed_zero_def)
  have signed: "fmul (Num (- 1)) (Num 0) = NegZero"
    by (simp add: fmul_def signed_zero_def)
  have down: "truncPercentage (lit (- 0.05)) = NegZero"
    unfolding lit_neg_0_05
    by (simp add: truncPercentage_def scaled quotient signed)
  then have same: "strict_eq (truncPercentage (lit (- 0.05))) (Num 0)"
    by (simp add: strict_eq_def is_zero_def)
  have nan: "truncPercentage NaN = NaN"
    by (simp add: truncPercentage_def fmul_def)
  from formula general up down same nan show ?thesis by blast
qed

text \<open>
  The law with exact arithmetic fails on the program. The literal 0.8999999999999999
  is the double 2026619832316723 / 2251799813685248, below 0.9; ten times it rounds to
  9, so \<open>truncPercentage\<close> gives the double 0.9, where the sign times the floor of ten
  times the absolute value, divided by ten, is 0.8. In the same way the double 0.7,
  which is below 0.7, gives itself, where the exact law gives 0.6.
\<close>

theorem truncPercentage_law_counterexample:
  "lit 0.8999999999999999 = Num (2026619832316723 / 2251799813685248)
   \<and> truncPercentage (lit 0.8999999999999999) = lit 0.9
   \<and> value_of (truncPercentage (Num (2026619832316723 / 2251799813685248)))
       \<noteq> sgn (2026619832316723 / 2251799813685248 :: real)
           * of_int \<lfloor>\<bar>2026619832316723 / 2251799813685248 :: real\<bar> * 10\<rfloor> / 10
   \<and> sgn (2026619832316723 / 2251799813685248 :: real)
       * of_int \<lfloor>\<bar>2026619832316723 / 2251799813685248 :: real\<bar> * 10\<rfloor> / 10 = 0.8
   \<and> truncPercentage (lit 0.8999999999999999) \<noteq> lit 0.8
   \<and> lit 0.7 = Num (3152519739159347 / 4503599627370496)
   \<and> truncPercentage (lit 0.7) = lit 0.7
   \<and> sgn (3152519739159347 / 4503599627370496 :: real)
       * of_int \<lfloor>\<bar>3152519739159347 / 4503599627370496 :: real\<bar> * 10\<rfloor> / 10 = 0.6"
proof -
  have result: "truncPercentage (Num (2026619832316723 / 2251799813685248))
      = Num (8106479329266893 / 9007199254740992)"
    by (simp add: truncPercentage_def mul_0_8999_10 div_9_10 mul_1_0_9)
  have exact: "sgn (2026619832316723 / 2251799813685248 :: real)
       * of_int \<lfloor>\<bar>2026619832316723 / 2251799813685248 :: real\<bar> * 10\<rfloor> / 10 = 0.8"
    by simp
  have differ: "value_of (truncPercentage (Num (2026619832316723 / 2251799813685248)))
       \<noteq> sgn (2026619832316723 / 2251799813685248 :: real)
           * of_int \<lfloor>\<bar>2026619832316723 / 2251799813685248 :: real\<bar> * 10\<rfloor> / 10"
    unfolding exact result by simp
  have code: "truncPercentage (lit 0.8999999999999999) = lit 0.9"
    unfolding lit_0_8999 lit_0_9 by (rule result)
  have other: "truncPercentage (lit 0.8999999999999999) \<noteq> lit 0.8"
    unfolding lit_0_8999 lit_0_8 result by simp
  have seven: "truncPercentage (lit 0.7) = lit 0.7"
    unfolding lit_0_7 by (simp add: truncPercentage_def mul_0_7_10 div_7_10 mul_1_0_7)
  have six: "sgn (3152519739159347 / 4503599627370496 :: real)
       * of_int \<lfloor>\<bar>3152519739159347 / 4503599627370496 :: real\<bar> * 10\<rfloor> / 10 = 0.6"
    by simp
  from lit_0_8999 code differ exact other lit_0_7 seven six show ?thesis by blast
qed

section \<open>The scenario from end to end\<close>

text \<open>
  Claim C5. Base has the file a.rb with the lines [1, 1, 0] and no branches, head has it
  with the lines [1, 1, 1] (and branches that are absent or empty). The diff is the one
  record with the file name a.rb, the lines from 2/3 * 100 to 100, and the branches from
  null to null. The \<open>from\<close> value is stored at full precision: it is the double
  66.66666666666666, which is 66.67 to two decimal places and is not the value 66.6
  that the formatter shows after truncation.
\<close>

theorem end_to_end_scenario:
  "build [(suite, \<lparr>coverage = Some [(''a.rb'', \<lparr>raw_lines = Some [Some 1, Some 1, Some 0], raw_branches = Some []\<rparr>)]\<rparr>)]
     = Inr [(''a.rb'', \<lparr>line_hits = [Some 1, Some 1, Some 0], branch_hits = []\<rparr>)]
   \<and> build [(suite, \<lparr>coverage = Some [(''a.rb'', \<lparr>raw_lines = Some [Some 1, Some 1, Some 1], raw_branches = None\<rparr>)]\<rparr>)]
     = Inr [(''a.rb'', \<lparr>line_hits = [Some 1, Some 1, Some 1], branch_hits = []\<rparr>)]
   \<and> build [(suite, \<lparr>coverage = Some [(''a.rb'', \<lparr>raw_lines = Some [Some 1, Some 1, Some 1], raw_branches = Some []\<rparr>)]\<rparr>)]
     = Inr [(''a.rb'', \<lparr>line_hits = [Some 1, Some 1, Some 1], branch_hits = []\<rparr>)]
   \<and> getCoverageDiff
        [(''a.rb'', \<lparr>line_hits = [Some 1, Some 1, Some 0], branch_hits = []\<rparr>)]
        [(''a.rb'', \<lparr>line_hits = [Some 1, Some 1, Some 1], branch_hits = []\<rparr>)]
     = [\<lparr>filename = ''a.rb'',
         lines = \<lparr>from_pct = Some (fmul (fdiv (Num 2) (Num 3)) (Num 100)), to_pct = Some (Num 100)\<rparr>,
         branches = \<lparr>from_pct = None, to_pct = None\<rparr>\<rparr>]
   \<and> fmul (fdiv (Num 2) (Num 3)) (Num 100) = Num (2345624805922133 / 35184372088832)
   \<and> \<bar>2345624805922133 / 35184372088832 - 66.67\<bar> < (0.005 :: real)
   \<and> truncPercentage (Num (2345624805922133 / 35184372088832)) = lit 66.6
   \<and> Num (2345624805922133 / 35184372088832)
       \<noteq> truncPercentage (Num (2345624805922133 / 35184372088832))"
proof -
  have base: "build [(suite, \<lparr>coverage = Some [(''a.rb'', \<lparr>raw_lines = Some [Some 1, Some 1, Some 0], raw_branches = Some []\<rparr>)]\<rparr>)]
     = Inr [(''a.rb'', \<lparr>line_hits = [Some 1, Some 1, Some 0], branch_hits = []\<rparr>)]"
    by (simp add: build_def validate_def)
  have head: "build [(suite, \<lparr>coverage = Some [(''a.rb'', \<lparr>raw_lines = Some [Some 1, Some 1, Some 1], raw_branches = None\<rparr>)]\<rparr>)]
     = Inr [(''a.rb'', \<lparr>line_hits = [Some 1, Some 1, Some 1], branch_hits = []\<rparr>)]"
    by (simp add: build_def validate_def)
  have head': "build [(suite, \<lparr>coverage = Some [(''a.rb'', \<lparr>raw_lines = Some [Some 1, Some 1, Some 1], raw_branches = Some []\<rparr>)]\<rparr>)]
     = Inr [(''a.rb'', \<lparr>line_hits = [Some 1, Some 1, Some 1], branch_hits = []\<rparr>)]"
    by (simp add: build_def validate_def)
  have emitted: "getCoverageDiff
        [(''a.rb'', \<lparr>line_hits = [Some 1, Some 1, Some 0], branch_hits = []\<rparr>)]
        [(''a.rb'', \<lparr>line_hits = [Some 1, Some 1, Some 1], branch_hits = []\<rparr>)]
     = [\<lparr>filename = ''a.rb'',
         lines = \<lparr>from_pct = Some (fmul (fdiv (Num 2) (Num 3)) (Num 100)), to_pct = Some (Num 100)\<rparr>,
         branches = \<lparr>from_pct = None, to_pct = None\<rparr>\<rparr>]"
    by (simp add: getCoverageDiff_def unionPaths_def knownPaths_def addPath_def hasRecord_def
          diffRecord_def percentageFor_def linesPercentage_def branchesPercentage_def
          div_3_3 mul_1_100)
  have double: "fmul (fdiv (Num 2) (Num 3)) (Num 100) = Num (2345624805922133 / 35184372088832)"
    by (simp only: div_2_3 mul_two_thirds_100)
  have close: "\<bar>2345624805922133 / 35184372088832 - 66.67\<bar> < (0.005 :: real)"
    by simp
  have result: "truncPercentage (Num (2345624805922133 / 35184372088832))
      = Num (2343279181116211 / 35184372088832)"
    by (simp add: truncPercentage_def mul_from_10 div_666_10 mul_1_66_6)
  then have shown: "truncPercentage (Num (2345624805922133 / 35184372088832)) = lit 66.6"
    by (simp only: lit_66_6)
  have stored: "Num (2345624805922133 / 35184372088832)
       \<noteq> truncPercentage (Num (2345624805922133 / 35184372088832))"
    unfolding result by simp
  from base head head' emitted double close shown stored show ?thesis by blast
qed

section \<open>The content of the report\<close>

text \<open>
  Claim C6. The content of the report is the literal text "No differences" when the
  diff is empty, which is when both documents have no file. When the diff is not empty
  the content is the table with the header Filename, Lines, Branches and one row of
  three cells for every record, whatever its values: a record whose from and to are
  equal has its row.
  For a table renderer that never prints the literal text, the content is the literal
  text if and only if the diff is empty.
\<close>

theorem reportContent_no_differences:
  "(diff = [] \<longrightarrow> reportContent table str w diff = ''No differences'')
   \<and> (diff \<noteq> [] \<longrightarrow>
        reportContent table str w diff
          = table ([''Filename'', ''Lines'', ''Branches''] # map (formatDiff str w) diff))
   \<and> length (formatDiff str w d) = 3
   \<and> ((\<forall>rows. table rows \<noteq> ''No differences'') \<longrightarrow>
        (reportContent table str w diff = ''No differences'' \<longleftrightarrow> diff = []))
   \<and> (getCoverageDiff base head = [] \<longleftrightarrow> knownPaths base = [] \<and> knownPaths head = [])"
proof -
  have "getCoverageDiff base head = [] \<longleftrightarrow> set (unionPaths base head) = {}"
    by (simp add: getCoverageDiff_map)
  then have "getCoverageDiff base head = [] \<longleftrightarrow> knownPaths base = [] \<and> knownPaths head = []"
    by (simp add: set_unionPaths)
  then show ?thesis by (auto simp: reportContent_def formatDiff_def)
qed

theorem reportContent_no_differences_witness:
  "reportContent example_table (\<lambda>n. ''?'') ''/work'' [] = ''No differences''
   \<and> reportContent example_table (\<lambda>n. ''?'') ''/work''
        [\<lparr>filename = ''/work/a.rb'',
          lines = \<lparr>from_pct = Some (Num 100), to_pct = Some (Num 100)\<rparr>,
          branches = \<lparr>from_pct = None, to_pct = None\<rparr>\<rparr>]
      = example_table
          [[''Filename'', ''Lines'', ''Branches''],
           formatDiff (\<lambda>n. ''?'') ''/work''
             \<lparr>filename = ''/work/a.rb'',
              lines = \<lparr>from_pct = Some (Num 100), to_pct = Some (Num 100)\<rparr>,
              branches = \<lparr>from_pct = None, to_pct = None\<rparr>\<rparr>]
   \<and> reportContent example_table (\<lambda>n. ''?'') ''/work''
        [\<lparr>filename = ''/work/a.rb'',
          lines = \<lparr>from_pct = Some (Num 100), to_pct = Some (Num 100)\<rparr>,
          branches = \<lparr>from_pct = None, to_pct = None\<rparr>\<rparr>]
      \<noteq> ''No differences''
   \<and> getCoverageDiff [] [] = []"
proof -
  let ?d = "\<lparr>filename = ''/work/a.rb'',
          lines = \<lparr>from_pct = Some (Num 100), to_pct = Some (Num 100)\<rparr>,
          branches = \<lparr>from_pct = None, to_pct = None\<rparr>\<rparr>"
  have never: "\<forall>rows. example_table rows \<noteq> ''No differences''"
  proof
    fix rows
    show "example_table rows \<noteq> ''No differences''"
      by (cases rows) (simp_all add: example_table_def)
  qed
  have filled: "[?d] \<noteq> []" by simp
  from reportContent_no_differences[of "[]" example_table "\<lambda>n. ''?''" "''/work''" ?d "[]" "[]"]
  have empty: "reportContent example_table (\<lambda>n. ''?'') ''/work'' [] = ''No differences''"
    and engine: "getCoverageDiff [] [] = []"
    by (simp_all add: knownPaths_def)
  from reportContent_no_differences[of "[?d]" example_table "\<lambda>n. ''?''" "''/work''" ?d "[]" "[]"] never filled
  have "reportContent example_table (\<lambda>n. ''?'') ''/work'' [?d]
          = example_table [[''Filename'', ''Lines'', ''Branches''], formatDiff (\<lambda>n. ''?'') ''/work'' ?d]"
    and "reportContent example_table (\<lambda>n. ''?'') ''/work'' [?d] \<noteq> ''No differences''"
    by simp_all
  with empty engine show ?thesis by blast
qed

section \<open>The labels of a cell\<close>

text \<open>
  Claim C7. The text of a cell starts with the label NEW exactly when \<open>from\<close> is null
  and \<open>to\<close> is not, and with the label DELETE exactly when \<open>from\<close> is not null and
  \<open>to\<close> is null. A new cell is the label and the percentage, a deleted cell is the
  label alone, and a cell with both sides null is the empty string: no label, no
  percentage, no badge.
\<close>

theorem formatDiffItem_labels:
  "(prefix ''NEW'' (formatDiffItem str \<lparr>from_pct = f, to_pct = t\<rparr>) \<longleftrightarrow> f = None \<and> t \<noteq> None)
   \<and> (prefix ''DELETE'' (formatDiffItem str \<lparr>from_pct = f, to_pct = t\<rparr>) \<longleftrightarrow> f \<noteq> None \<and> t = None)
   \<and> formatDiffItem str \<lparr>from_pct = None, to_pct = Some v\<rparr> = ''NEW '' @ str (truncPercentage v) @ ''%''
   \<and> formatDiffItem str \<lparr>from_pct = Some u, to_pct = None\<rparr> = ''DELETE''
   \<and> formatDiffItem str \<lparr>from_pct = None, to_pct = None\<rparr> = ''''"
proof -
  have created: "prefix ''NEW'' (formatDiffItem str \<lparr>from_pct = f, to_pct = t\<rparr>) \<longleftrightarrow> f = None \<and> t \<noteq> None"
    by (cases f; cases t) (simp_all add: formatDiffItem_def)
  have deleted: "prefix ''DELETE'' (formatDiffItem str \<lparr>from_pct = f, to_pct = t\<rparr>) \<longleftrightarrow> f \<noteq> None \<and> t = None"
    by (cases f; cases t) (simp_all add: formatDiffItem_def)
  have shapes:
    "formatDiffItem str \<lparr>from_pct = None, to_pct = Some v\<rparr> = ''NEW '' @ str (truncPercentage v) @ ''%''"
    "formatDiffItem str \<lparr>from_pct = Some u, to_pct = None\<rparr> = ''DELETE''"
    "formatDiffItem str \<lparr>from_pct = None, to_pct = None\<rparr> = ''''"
    by (simp_all add: formatDiffItem_def)
  from created deleted shapes show ?thesis by blast
qed

theorem formatDiffItem_labels_witness:
  "prefix ''NEW'' (formatDiffItem (\<lambda>n. ''50'') \<lparr>from_pct = None, to_pct = Some (Num 50)\<rparr>)
   \<and> prefix ''DELETE'' (formatDiffItem (\<lambda>n. ''50'') \<lparr>from_pct = Some (Num 50), to_pct = None\<rparr>)
   \<and> \<not> prefix ''NEW'' (formatDiffItem (\<lambda>n. ''50'') \<lparr>from_pct = Some (Num 40), to_pct = Some (Num 50)\<rparr>)
   \<and> \<not> prefix ''DELETE'' (formatDiffItem (\<lambda>n. ''50'') \<lparr>from_pct = Some (Num 40), to_pct = Some (Num 50)\<rparr>)
   \<and> formatDiffItem (\<lambda>n. ''50'') \<lparr>from_pct = None, to_pct = Some (Num 50)\<rparr> = ''NEW 50%''"
  using formatDiffItem_labels [of "\<lambda>n. ''50''" None "Some (Num 50)" "Num 50"]
    formatDiffItem_labels [of "\<lambda>n. ''50''" "Some (Num 50)" None]
    formatDiffItem_labels [of "\<lambda>n. ''50''" "Some (Num 40)" "Some (Num 50)"]
  by simp

section \<open>A run with no pull request\<close>

text \<open>
  Claim C8. When the run reaches the publication (both files exist and parse, both
  documents are built, the client is created) and the context gives no pull request
  number, the run logs what the commit resolution logs, then the warning
  "Cannot find the PR id." and the message as an information; it sets no failure, makes
  no request to create a comment, and its body ends without an exception.
\<close>

theorem run_without_pull_request:
  assumes "existsSync w (path_resolve w (process_cwd w) (getInput w ''base-resultset-path''))"
    and "existsSync w (path_resolve w (process_cwd w) (getInput w ''head-resultset-path''))"
    and "parseResultset w (path_resolve w (process_cwd w) (getInput w ''base-resultset-path''))
           = Inr base_set"
    and "parseResultset w (path_resolve w (process_cwd w) (getInput w ''head-resultset-path''))
           = Inr head_set"
    and "build base_set = Inr base"
    and "build head_set = Inr head"
    and "getOctokit w (getInput w ''token'') = None"
    and "issue_number (github_context w) = Inr pullRequestId"
    and "falsy pullRequestId"
  shows "run w =
           fst (resolveCommitSha (github_context w))
           @ [Warning ''Cannot find the PR id.'',
              Info (reportMessage
                      (reportContent (markdownTable w) (numberToString w) (WORKSPACE w)
                         (getCoverageDiff base head))
                      (snd (resolveCommitSha (github_context w))))]
         \<and> (\<forall>m. SetFailed m \<notin> set (run w))
         \<and> (\<forall>owner repo n body. CreateComment owner repo n body \<notin> set (run w))
         \<and> snd (run_try w) = Inr ()"
proof -
  let ?logged = "fst (resolveCommitSha (github_context w))"
  let ?message = "reportMessage
                      (reportContent (markdownTable w) (numberToString w) (WORKSPACE w)
                         (getCoverageDiff base head))
                      (snd (resolveCommitSha (github_context w)))"
  have body: "run_try w = (?logged @ [Warning ''Cannot find the PR id.'', Info ?message], Inr ())"
    using assms
    by (simp add: run_try_def doesPathExists_def Let_def split: prod.splits)
  then have trace: "run w = ?logged @ [Warning ''Cannot find the PR id.'', Info ?message]"
    by (simp add: run_def)
  have "SetFailed m \<notin> set (run w)" for m
    unfolding trace using resolveCommitSha_info by fastforce
  moreover have "CreateComment owner repo n body \<notin> set (run w)" for owner repo n body
    unfolding trace using resolveCommitSha_info by fastforce
  ultimately show ?thesis using trace body by simp
qed

theorem run_without_pull_request_witness:
  "run example_world =
     [Info ''Pull sha from pushEvent'',
      Warning ''Cannot find the PR id.'',
      Info (reportMessage
              (reportContent example_table (\<lambda>n. ''?'') ''/work''
                 (getCoverageDiff
                    [(''a.rb'', \<lparr>line_hits = [Some 1, Some 1, Some 0], branch_hits = []\<rparr>)]
                    [(''a.rb'', \<lparr>line_hits = [Some 1, Some 1, Some 1], branch_hits = []\<rparr>)]))
              ''abc123'')]
   \<and> (\<forall>m. SetFailed m \<notin> set (run example_world))
   \<and> (\<forall>owner repo n body. CreateComment owner repo n body \<notin> set (run example_world))
   \<and> snd (run_try example_world) = Inr ()"
proof -
  have exists:
    "existsSync example_world
       (path_resolve example_world (process_cwd example_world) (getInput example_world ''base-resultset-path''))"
    "existsSync example_world
       (path_resolve example_world (process_cwd example_world) (getInput example_world ''head-resultset-path''))"
    by (simp_all add: example_world_def)
  have parsed:
    "parseResultset example_world
       (path_resolve example_world (process_cwd example_world) (getInput example_world ''base-resultset-path''))
     = Inr (example_set [Some 1, Some 1, Some 0])"
    "parseResultset example_world
       (path_resolve example_world (process_cwd example_world) (getInput example_world ''head-resultset-path''))
     = Inr (example_set [Some 1, Some 1, Some 1])"
    by (simp_all add: example_world_def parseResultset_def)
  have built:
    "build (example_set [Some 1, Some 1, Some 0])
     = Inr [(''a.rb'', \<lparr>line_hits = [Some 1, Some 1, Some 0], branch_hits = []\<rparr>)]"
    "build (example_set [Some 1, Some 1, Some 1])
     = Inr [(''a.rb'', \<lparr>line_hits = [Some 1, Some 1, Some 1], branch_hits = []\<rparr>)]"
    by (simp_all add: example_set_def build_def validate_def)
  have client: "getOctokit example_world (getInput example_world ''token'') = None"
    by (simp add: example_world_def)
  have number: "issue_number (github_context example_world) = Inr None"
    by (simp add: example_world_def)
  have absent: "falsy None"
    by simp
  from run_without_pull_request[OF exists parsed built client number absent]
  show ?thesis
    by (simp add: example_world_def resolveCommitSha_def)
qed

section \<open>The first column of the report\<close>

text \<open>
  Claim C10. The first column of a row is the file name with the workspace prefix
  trimmed: when the name starts with the workspace root followed by a slash, exactly
  that prefix is removed; every other name is left as it is, and so is a name that is
  the workspace root itself, with no slash after it.
\<close>

theorem trimWorkspacePath_prefix:
  "formatDiff str w d ! 0 = trimWorkspacePath w (filename d)
   \<and> trimWorkspacePath w (w @ ''/'' @ rest) = rest
   \<and> (prefix (w @ ''/'') f \<longrightarrow> w @ ''/'' @ trimWorkspacePath w f = f)
   \<and> (\<not> prefix (w @ ''/'') f \<longrightarrow> trimWorkspacePath w f = f)
   \<and> trimWorkspacePath w w = w"
proof -
  have column: "formatDiff str w d ! 0 = trimWorkspacePath w (filename d)"
    by (simp add: formatDiff_def)
  have removed: "trimWorkspacePath w (w @ ''/'' @ rest) = rest"
    by (simp add: trimWorkspacePath_def)
  have exactly: "w @ ''/'' @ trimWorkspacePath w f = f" if "prefix (w @ ''/'') f"
  proof -
    from that obtain tail where "f = (w @ ''/'') @ tail"
      by (auto simp: prefix_def)
    then show ?thesis by (simp add: trimWorkspacePath_def)
  qed
  have unchanged: "trimWorkspacePath w f = f" if "\<not> prefix (w @ ''/'') f"
    using that by (simp add: trimWorkspacePath_def)
  have root: "trimWorkspacePath w w = w"
    by (simp add: trimWorkspacePath_def)
  from column removed exactly unchanged root show ?thesis by blast
qed

theorem trimWorkspacePath_prefix_witness:
  "trimWorkspacePath ''/work'' ''/work/app/a.rb'' = ''app/a.rb''
   \<and> prefix (''/work'' @ ''/'') ''/work/app/a.rb''
   \<and> \<not> prefix (''/work'' @ ''/'') ''/workspace/a.rb''
   \<and> trimWorkspacePath ''/work'' ''/workspace/a.rb'' = ''/workspace/a.rb''
   \<and> trimWorkspacePath ''/work'' ''/work'' = ''/work''"
  using trimWorkspacePath_prefix [of "\<lambda>n. ''''" "''/work''" "\<lparr>filename = ''/work'', lines = \<lparr>from_pct = None, to_pct = None\<rparr>, branches = \<lparr>from_pct = None, to_pct = None\<rparr>\<rparr>" "''app/a.rb''" "''/work/app/a.rb''"]
    trimWorkspacePath_prefix [of "\<lambda>n. ''''" "''/work''" "\<lparr>filename = ''/work'', lines = \<lparr>from_pct = None, to_pct = None\<rparr>, branches = \<lparr>from_pct = None, to_pct = None\<rparr>\<rparr>" "''app/a.rb''" "''/workspace/a.rb''"]
  by simp

end
